theory Spec2Isabelle
  imports Main
begin

text \<open>
  The Grizzly mapper turns a model of field mappings into a Python script, reads such a
  script back into a model, and compares two models. This theory embeds that core as it
  stands in the current component of \<^verbatim>\<open>src/GrizzlyMapper.jsx\<close> (the one that
  starts at line 351 of the file): the template parser (lines 375-481), the
  transformation registry (736-855), the change diff (1013-1056), the file handler
  (1058-1088), the operations on the model (1099-1161) and the code generator
  (1192-1279).
\<close>

section \<open>JavaScript values, objects and strings\<close>

text \<open>
  The mapper keeps its model in plain JavaScript objects. A property of a mapping holds a
  string, \<open>null\<close>, a boolean (\<open>isNew\<close>) or is missing (\<open>undefined\<close>). Strings are
  lists of characters; a character stands for one code unit below 256, which covers all
  text the generator itself writes. \<open>TypeError\<close> is the exception that JavaScript raises when
  a value that is no function is called.
\<close>

datatype jsval = Undefined | Null | Bool bool | Str string

datatype error = TypeError

text \<open>A mapping is an open object: a finite map from property names to values.\<close>

type_synonym mapping = "string \<rightharpoonup> jsval"

record module =
  id_m :: jsval
  name :: jsval
  mappings :: "mapping list"

definition get :: "mapping \<Rightarrow> string \<Rightarrow> jsval" where
  \<comment> \<open>the property read \<open>m.f\<close>\<close>
  "get m f = (case m f of None \<Rightarrow> Undefined | Some v \<Rightarrow> v)"

definition truthy :: "jsval \<Rightarrow> bool" where
  "truthy v = (case v of Undefined \<Rightarrow> False | Null \<Rightarrow> False | Bool b \<Rightarrow> b | Str s \<Rightarrow> s \<noteq> [])"

definition toStr :: "jsval \<Rightarrow> string" where
  \<comment> \<open>the conversion done by a template literal and by a property key\<close>
  "toStr v = (case v of Undefined \<Rightarrow> ''undefined'' | Null \<Rightarrow> ''null''
     | Bool b \<Rightarrow> (if b then ''true'' else ''false'') | Str s \<Rightarrow> s)"

definition orElse :: "jsval \<Rightarrow> string \<Rightarrow> string" where
  \<comment> \<open>the interpolation of \<open>v || "d"\<close>\<close>
  "orElse v d = (if truthy v then toStr v else d)"

fun join :: "string \<Rightarrow> string list \<Rightarrow> string" where
  "join sep [] = []"
| "join sep [x] = x"
| "join sep (x # y # ys) = x @ sep @ join sep (y # ys)"

fun split_js :: "char \<Rightarrow> string \<Rightarrow> string list" where
  \<comment> \<open>\<open>s.split(c)\<close> for a one-character separator; never the empty list\<close>
  "split_js c [] = [[]]"
| "split_js c (x # xs) =
     (if x = c then [] # split_js c xs
      else (case split_js c xs of [] \<Rightarrow> [[x]] | y # ys \<Rightarrow> (x # y) # ys))"

definition includes_js :: "string \<Rightarrow> char \<Rightarrow> bool" where
  "includes_js s c = (c \<in> set s)"

section \<open>Transformation registry\<close>

definition direct_generate :: "mapping \<Rightarrow> error + string" where
  \<open>direct_generate m =
     (let src = orElse (get m ''source'') ''source'';
          code = ''INPUT.'' @ src
      in Inr (if get m ''transform'' = Str ''upper'' then code @ ''.upper()''
              else if get m ''transform'' = Str ''lower'' then code @ ''.lower()''
              else if get m ''transform'' = Str ''capitalize'' then code @ ''.capitalize()''
              else if truthy (get m ''transform'')
                   then toStr (get m ''transform'') @ ''('' @ code @ '')''
              else code))\<close>

definition branchCode :: "jsval \<Rightarrow> string \<Rightarrow> error + string" where
  \<comment> \<open>\<open>v = m.thenValue || "value1"\<close>, then
      \<open>v.includes('.') ? `INPUT.${v}` : `"${v}"`\<close>; a truthy value that is no string
      has no \<open>includes\<close>\<close>
  \<open>branchCode v d =
     (case (if truthy v then v else Str d) of
        Str s \<Rightarrow> Inr (if includes_js s (CHR ''.'') then ''INPUT.'' @ s else ''"'' @ s @ ''"'')
      | _ \<Rightarrow> Inl TypeError)\<close>

definition conditional_generate :: "mapping \<Rightarrow> error + string" where
  \<open>conditional_generate m =
     (let field = orElse (get m ''condField'') ''field'';
          op = orElse (get m ''condOp'') ''=='';
          val = orElse (get m ''condValue'') ''value''
      in case branchCode (get m ''thenValue'') ''value1'' of
           Inl e \<Rightarrow> Inl e
         | Inr thenCode \<Rightarrow>
             (case branchCode (get m ''elseValue'') ''value2'' of
                Inl e \<Rightarrow> Inl e
              | Inr elseCode \<Rightarrow>
                  Inr (thenCode @ '' if INPUT.'' @ field @ '' '' @ op @ '' "'' @ val
                       @ ''" else '' @ elseCode)))\<close>

definition for_loop_generate :: "mapping \<Rightarrow> error + string" where
  \<open>for_loop_generate m =
     Inr (''for '' @ orElse (get m ''loopVar'') ''item'' @ '' in ''
          @ orElse (get m ''iterable'') ''items'' @ '':'')\<close>

definition if_block_generate :: "mapping \<Rightarrow> error + string" where
  \<open>if_block_generate m =
     Inr (if get m ''ifType'' = Str ''else'' then ''else:''
          else if get m ''ifType'' = Str ''elif''
               then ''elif '' @ orElse (get m ''condition'') ''condition'' @ '':''
          else ''if '' @ orElse (get m ''condition'') ''condition'' @ '':'')\<close>

definition break_generate :: "mapping \<Rightarrow> error + string" where
  \<open>break_generate m = Inr ''break''\<close>

definition continue_generate :: "mapping \<Rightarrow> error + string" where
  \<open>continue_generate m = Inr ''continue''\<close>

definition datetime_parse_generate :: "mapping \<Rightarrow> error + string" where
  \<open>datetime_parse_generate m =
     Inr (orElse (get m ''varName'') ''date'' @ '' = parseDate(''
          @ orElse (get m ''source'') ''INPUT.date'' @ '', "''
          @ orElse (get m ''format'') ''yyyyMMdd'' @ ''")'')\<close>

definition datetime_format_generate :: "mapping \<Rightarrow> error + string" where
  \<open>datetime_format_generate m =
     Inr (''formatDate('' @ orElse (get m ''dateVar'') ''date'' @ '', "''
          @ orElse (get m ''format'') ''yyyy-MM-dd'' @ ''")'')\<close>

definition datetime_add_generate :: "mapping \<Rightarrow> error + string" where
  \<open>datetime_add_generate m =
     Inr (orElse (get m ''varName'') ''newDate'' @ '' = ''
          @ orElse (get m ''operation'') ''addDays'' @ ''(''
          @ orElse (get m ''source'') ''date'' @ '', ''
          @ orElse (get m ''amount'') ''1'' @ '')'')\<close>

definition decimal_binop :: "mapping \<Rightarrow> string \<Rightarrow> string" where
  \<open>decimal_binop m symb =
     orElse (get m ''resultVar'') ''result'' @ '' = '' @ orElse (get m ''value1'') ''val1''
     @ '' '' @ symb @ '' '' @ orElse (get m ''value2'') ''val2''\<close>

definition decimal_generate :: "mapping \<Rightarrow> error + string" where
  \<open>decimal_generate m =
     Inr (if get m ''decimalOp'' = Str ''create''
          then orElse (get m ''varName'') ''amount'' @ '' = Decimal(''
               @ orElse (get m ''source'') ''"0"'' @ '')''
          else if get m ''decimalOp'' = Str ''add'' then decimal_binop m ''+''
          else if get m ''decimalOp'' = Str ''subtract'' then decimal_binop m ''-''
          else if get m ''decimalOp'' = Str ''multiply'' then decimal_binop m ''*''
          else if get m ''decimalOp'' = Str ''divide'' then decimal_binop m ''/''
          else if get m ''decimalOp'' = Str ''round''
               then ''round('' @ orElse (get m ''source'') ''amount'' @ '', ''
                    @ orElse (get m ''decimals'') ''2'' @ '')''
          else ''Decimal("0")'')\<close>

definition regex_call :: "string \<Rightarrow> string \<Rightarrow> string \<Rightarrow> string" where
  \<open>regex_call fn pattern source = ''re.'' @ fn @ ''(r"'' @ pattern @ ''", '' @ source @ '')''\<close>

definition regex_generate :: "mapping \<Rightarrow> error + string" where
  \<open>regex_generate m =
     (let pattern = orElse (get m ''pattern'') ''pattern'';
          source = orElse (get m ''source'') ''INPUT.text''
      in Inr (if get m ''regexOp'' = Str ''match'' then regex_call ''match'' pattern source
              else if get m ''regexOp'' = Str ''search'' then regex_call ''search'' pattern source
              else if get m ''regexOp'' = Str ''findall'' then regex_call ''findall'' pattern source
              else if get m ''regexOp'' = Str ''replace''
                   then ''re.sub(r"'' @ pattern @ ''", "'' @ orElse (get m ''replacement'') ''''
                        @ ''", '' @ source @ '')''
              else if get m ''regexOp'' = Str ''split'' then regex_call ''split'' pattern source
              else regex_call ''match'' pattern source))\<close>

text \<open>
  \<open>TRANSFORMATION_PLUGINS\<close> is an object literal, so \<open>TRANSFORMATION_PLUGINS[k]\<close> finds
  its eleven own properties and, for any other key, whatever \<open>Object.prototype\<close> provides
  under that name: a function (or, for \<open>__proto__\<close>, the prototype object itself). Such a
  value is truthy and has no \<open>generate\<close> property.
\<close>

datatype property = Plugin "mapping \<Rightarrow> error + string" | Inherited | NoProperty

definition registry :: "(string \<times> (mapping \<Rightarrow> error + string)) list" where
  "registry =
     [(''direct'', direct_generate), (''conditional'', conditional_generate),
      (''for_loop'', for_loop_generate), (''if_block'', if_block_generate),
      (''break'', break_generate), (''continue'', continue_generate),
      (''datetime_parse'', datetime_parse_generate),
      (''datetime_format'', datetime_format_generate),
      (''datetime_add'', datetime_add_generate), (''decimal'', decimal_generate),
      (''regex'', regex_generate)]"

definition object_prototype :: "string list" where
  "object_prototype =
     [''constructor'', ''__defineGetter__'', ''__defineSetter__'', ''hasOwnProperty'',
      ''__lookupGetter__'', ''__lookupSetter__'', ''isPrototypeOf'',
      ''propertyIsEnumerable'', ''toString'', ''valueOf'', ''__proto__'',
      ''toLocaleString'']"

definition TRANSFORMATION_PLUGINS :: "string \<Rightarrow> property" where
  "TRANSFORMATION_PLUGINS k =
     (case map_of registry k of
        Some g \<Rightarrow> Plugin g
      | None \<Rightarrow> (if k \<in> set object_prototype then Inherited else NoProperty))"

section \<open>Code generator\<close>

text \<open>
  \<open>generateCode\<close> pushes lines onto an array and joins them with line feeds. Each loop of
  the source is the function below that returns the lines one pass of its body pushes;
  an exception raised in a body ends the loops and the call.
\<close>

fun forEach :: "('a \<Rightarrow> error + string list) \<Rightarrow> 'a list \<Rightarrow> error + string list" where
  \<comment> \<open>the lines pushed by a \<open>forEach\<close> whose body may throw; a throw ends the loop\<close>
  "forEach f [] = Inr []"
| "forEach f (x # xs) =
     (case f x of
        Inl e \<Rightarrow> Inl e
      | Inr ls \<Rightarrow> (case forEach f xs of Inl e \<Rightarrow> Inl e | Inr ls' \<Rightarrow> Inr (ls @ ls')))"

definition header :: "string list" where
  \<open>header = [''#!/usr/bin/env python3'', ''# GRIZZLY_TEMPLATE_V1'', ''"""'',
             ''Generated by Grizzly'', ''"""'', '''']\<close>

definition hasRegex :: "module list \<Rightarrow> bool" where
  "hasRegex modules =
     list_ex (\<lambda>m. list_ex (\<lambda>mp. get mp ''transformation'' = Str ''regex'') (mappings m)) modules"

definition call_lines :: "mapping \<Rightarrow> string list" where
  \<open>call_lines m =
     [''    # Call '' @ toStr (get m ''moduleName'') @ '' module'',
      ''    map_'' @ toStr (get m ''moduleName'') @ ''(INPUT, OUTPUT)'']\<close>

definition bracket :: "string \<Rightarrow> string" where
  \<open>bracket p = ''["'' @ p @ ''"]''\<close>

definition assignment :: "mapping \<Rightarrow> error + string list" where
  \<comment> \<open>the field branch of both mapping loops, from \<open>const Plugin = ...\<close> to
      \<open>lines.push(assignment)\<close>\<close>
  \<open>assignment m =
     (case TRANSFORMATION_PLUGINS (toStr (get m ''transformation'')) of
        NoProperty \<Rightarrow> Inr []
      | p \<Rightarrow>
          (if \<not> truthy (get m ''target'') then Inr []
           else case get m ''target'' of
                  Str t \<Rightarrow>
                    (let targetPath = split_js (CHR ''.'') t
                     in case p of
                          Plugin generate \<Rightarrow>
                            (case generate m of
                               Inl e \<Rightarrow> Inl e
                             | Inr code \<Rightarrow>
                                 Inr [if length targetPath = 1
                                      then ''    OUTPUT["'' @ hd targetPath @ ''"] = '' @ code
                                      else ''    OUTPUT'' @ concat (map bracket targetPath)
                                           @ '' = '' @ code])
                        | _ \<Rightarrow> Inl TypeError)
                | _ \<Rightarrow> Inl TypeError))\<close>

definition helper_mapping :: "mapping \<Rightarrow> error + string list" where
  "helper_mapping m =
     (if get m ''type'' = Str ''module_call'' then Inr (call_lines m) else assignment m)"

definition main_mapping :: "mapping \<Rightarrow> error + string list" where
  "main_mapping m =
     (if get m ''type'' = Str ''module_call'' then Inr (call_lines m @ [''    ''])
      else assignment m)"

definition helper_module :: "module \<Rightarrow> error + string list" where
  \<open>helper_module module =
     (if name module = Str ''main'' \<or> length (mappings module) = 0 then Inr []
      else case forEach helper_mapping (mappings module) of
             Inl e \<Rightarrow> Inl e
           | Inr body \<Rightarrow>
               Inr ([''def map_'' @ toStr (name module) @ ''(INPUT, OUTPUT):'',
                     ''    """'' @ toStr (name module) @ '' mappings"""'']
                    @ body @ ['''']))\<close>

definition main_function :: "module list \<Rightarrow> error + string list" where
  \<open>main_function modules =
     (case find (\<lambda>m. name m = Str ''main'') modules of
        None \<Rightarrow> Inr []
      | Some mainModule \<Rightarrow>
          (case forEach main_mapping (mappings mainModule) of
             Inl e \<Rightarrow> Inl e
           | Inr body \<Rightarrow>
               Inr ([''def transform(INPUT):'', ''    """Main transformation"""'',
                     ''    OUTPUT = {}'', ''    '']
                    @ body @ [''    '', ''    return OUTPUT''])))\<close>

definition generateCode :: "module list \<Rightarrow> error + string" where
  "generateCode modules =
     (case forEach helper_module modules of
        Inl e \<Rightarrow> Inl e
      | Inr helpers \<Rightarrow>
          (case main_function modules of
             Inl e \<Rightarrow> Inl e
           | Inr mainLines \<Rightarrow>
               Inr (join [CHR 0x0A]
                      (header @ (if hasRegex modules then [''import re'', ''''] else [])
                       @ helpers @ mainLines))))"

section \<open>Change diff engine\<close>

text \<open>
  \<open>currentFlat\<close> and \<open>originalFlat\<close> are objects used as dictionaries. Every key holds a
  colon, so no key is an array index or a name inherited from \<open>Object.prototype\<close>:
  \<open>Object.keys\<close> lists the keys in the order of their first insertion, a second write to
  a key replaces the value in place, and \<open>!flat[key]\<close> holds exactly for the missing keys
  (every stored value is an object).
\<close>

fun assign :: "(string \<times> 'v) list \<Rightarrow> string \<Rightarrow> 'v \<Rightarrow> (string \<times> 'v) list" where
  \<comment> \<open>\<open>flat[key] = v\<close>\<close>
  "assign [] k v = [(k, v)]"
| "assign (p # ps) k v = (if fst p = k then (k, v) # ps else p # assign ps k v)"

definition flatKey :: "jsval \<Rightarrow> mapping \<Rightarrow> string" where
  "flatKey modName m =
     (if get m ''type'' = Str ''module_call''
      then toStr modName @ '':call_'' @ toStr (get m ''moduleName'')
      else toStr modName @ '':'' @ toStr (get m ''target''))"

definition entry :: "jsval \<Rightarrow> mapping \<Rightarrow> mapping" where
  \<comment> \<open>\<open>{ module: mod.name, ...m }\<close>\<close>
  "entry modName m = [''module'' \<mapsto> modName] ++ m"

definition flatten :: "module list \<Rightarrow> (string \<times> mapping) list" where
  "flatten ms =
     fold (\<lambda>md flat.
             fold (\<lambda>m flat. assign flat (flatKey (name md) m) (entry (name md) m))
                  (mappings md) flat)
          ms []"

record changes =
  added :: "mapping list"
  removed :: "mapping list"
  modified :: "(mapping \<times> mapping) list"
  unchanged :: "mapping list"

definition no_changes :: changes where
  "no_changes = \<lparr>added = [], removed = [], modified = [], unchanged = []\<rparr>"

definition differs :: "mapping \<Rightarrow> mapping \<Rightarrow> bool" where
  "differs cur orig =
     (get cur ''source'' \<noteq> get orig ''source''
      \<or> get cur ''transformation'' \<noteq> get orig ''transformation''
      \<or> get cur ''transform'' \<noteq> get orig ''transform''
      \<or> get cur ''moduleName'' \<noteq> get orig ''moduleName'')"

definition classify ::
  "(string \<times> mapping) list \<Rightarrow> string \<times> mapping \<Rightarrow> changes \<Rightarrow> changes" where
  \<comment> \<open>the body of \<open>Object.keys(currentFlat).forEach\<close>; a modified entry is the pair
      (current, original)\<close>
  "classify originalFlat kv ch =
     (case map_of originalFlat (fst kv) of
        None \<Rightarrow> ch\<lparr>added := added ch @ [snd kv]\<rparr>
      | Some orig \<Rightarrow>
          (if differs (snd kv) orig then ch\<lparr>modified := modified ch @ [(snd kv, orig)]\<rparr>
           else ch\<lparr>unchanged := unchanged ch @ [snd kv]\<rparr>))"

definition find_removed ::
  "(string \<times> mapping) list \<Rightarrow> string \<times> mapping \<Rightarrow> changes \<Rightarrow> changes" where
  \<comment> \<open>the body of \<open>Object.keys(originalFlat).forEach\<close>\<close>
  "find_removed currentFlat kv ch =
     (case map_of currentFlat (fst kv) of
        None \<Rightarrow> ch\<lparr>removed := removed ch @ [snd kv]\<rparr>
      | Some cur \<Rightarrow> ch)"

definition calculateChanges :: "module list option \<Rightarrow> module list \<Rightarrow> changes" where
  "calculateChanges originalModules ms =
     (case originalModules of
        None \<Rightarrow> no_changes
      | Some orig \<Rightarrow>
          (let currentFlat = flatten ms;
               originalFlat = flatten orig
           in fold (find_removed currentFlat) originalFlat
                (fold (classify originalFlat) currentFlat no_changes)))"

section \<open>Regular expressions\<close>

text \<open>
  The parser is a set of JavaScript regular expressions. They are kept as syntax trees and
  run by a backtracking matcher that lists the ways a pattern can match at a position in
  the order the JavaScript engine tries them (a greedy quantifier takes the longer
  repetition first, a lazy one the shorter, an alternative its left branch first); the
  engine's answer is the head of the list at the leftmost position that has one. A
  matcher state is the number of characters before the position, the rest of the subject
  and the captures so far.
\<close>

datatype rx =
    Lit string
  | Cls "char \<Rightarrow> bool"
  | Seq rx rx
  | Alt rx rx
  | Star rx
  | Plus rx
  | PlusLazy rx
  | Opt rx
  | Grp nat rx
  | Bol
  | Eol

type_synonym captures = "nat \<rightharpoonup> string"
type_synonym rstate = "nat \<times> string \<times> captures"

fun iterate_greedy :: "(rstate \<Rightarrow> rstate list) \<Rightarrow> nat \<Rightarrow> rstate \<Rightarrow> rstate list" where
  \<comment> \<open>\<open>a*\<close>: at most \<open>n\<close> further repetitions, each consuming something; \<open>n\<close> is the
      length of the rest, which no run of such repetitions can exceed\<close>
  "iterate_greedy step 0 st = [st]"
| "iterate_greedy step (Suc n) st =
     concat (map (iterate_greedy step n) (filter (\<lambda>st'. fst st < fst st') (step st))) @ [st]"

fun iterate_lazy :: "(rstate \<Rightarrow> rstate list) \<Rightarrow> nat \<Rightarrow> rstate \<Rightarrow> rstate list" where
  "iterate_lazy step 0 st = [st]"
| "iterate_lazy step (Suc n) st =
     st # concat (map (iterate_lazy step n) (filter (\<lambda>st'. fst st < fst st') (step st)))"

primrec rx_match :: "rx \<Rightarrow> rstate \<Rightarrow> rstate list" where
  "rx_match (Lit l) st =
     (if take (length l) (fst (snd st)) = l
      then [(fst st + length l, drop (length l) (fst (snd st)), snd (snd st))] else [])"
| "rx_match (Cls p) st =
     (case fst (snd st) of
        [] \<Rightarrow> []
      | x # xs \<Rightarrow> (if p x then [(Suc (fst st), xs, snd (snd st))] else []))"
| "rx_match (Seq a b) st = concat (map (rx_match b) (rx_match a st))"
| "rx_match (Alt a b) st = rx_match a st @ rx_match b st"
| "rx_match (Star a) st = iterate_greedy (rx_match a) (length (fst (snd st))) st"
| "rx_match (Plus a) st =
     concat (map (\<lambda>st'. iterate_greedy (rx_match a) (length (fst (snd st'))) st')
                 (rx_match a st))"
| "rx_match (PlusLazy a) st =
     concat (map (\<lambda>st'. iterate_lazy (rx_match a) (length (fst (snd st'))) st')
                 (rx_match a st))"
| "rx_match (Opt a) st = rx_match a st @ [st]"
| "rx_match (Grp n a) st =
     map (\<lambda>st'. (fst st', fst (snd st'),
                  (snd (snd st'))(n \<mapsto> take (fst st' - fst st) (fst (snd st)))))
         (rx_match a st)"
| "rx_match Bol st = (if fst st = 0 then [st] else [])"
| "rx_match Eol st = (if fst (snd st) = [] then [st] else [])"

fun rx_exec :: "rx \<Rightarrow> nat \<Rightarrow> string \<Rightarrow> (nat \<times> nat \<times> captures) option" where
  \<comment> \<open>the leftmost match at or after the position: its start, its end, its captures\<close>
  "rx_exec r k s =
     (case rx_match r (k, s, Map.empty) of
        st # _ \<Rightarrow> Some (k, fst st, snd (snd st))
      | [] \<Rightarrow> (case s of [] \<Rightarrow> None | x # xs \<Rightarrow> rx_exec r (Suc k) xs))"

definition match_js :: "string \<Rightarrow> rx \<Rightarrow> captures option" where
  \<comment> \<open>\<open>s.match(r)\<close> for a pattern without the \<open>g\<close> flag: \<open>None\<close> is \<open>null\<close>\<close>
  "match_js s r = map_option (\<lambda>res. snd (snd res)) (rx_exec r 0 s)"

fun rx_all :: "rx \<Rightarrow> nat \<Rightarrow> nat \<Rightarrow> string \<Rightarrow> captures list" where
  \<comment> \<open>\<open>s.matchAll(r)\<close> for a pattern with the \<open>g\<close> flag: the matches from left to right,
      none overlapping; \<open>skip\<close> counts the characters still inside the last match\<close>
  "rx_all r skip k [] = (if skip = 0 then map (\<lambda>st. snd (snd st)) (take 1 (rx_match r (k, [], Map.empty))) else [])"
| "rx_all r skip k (x # xs) =
     (if 0 < skip then rx_all r (skip - 1) (Suc k) xs
      else case rx_match r (k, x # xs, Map.empty) of
             [] \<Rightarrow> rx_all r 0 (Suc k) xs
           | st # _ \<Rightarrow> snd (snd st) # rx_all r (fst st - k - 1) (Suc k) xs)"

fun rx_remove :: "rx \<Rightarrow> nat \<Rightarrow> nat \<Rightarrow> string \<Rightarrow> string" where
  \<comment> \<open>\<open>s.replace(r, '')\<close> for a pattern with the \<open>g\<close> flag\<close>
  "rx_remove r skip k [] = []"
| "rx_remove r skip k (x # xs) =
     (if 0 < skip then rx_remove r (skip - 1) (Suc k) xs
      else case rx_match r (k, x # xs, Map.empty) of
             [] \<Rightarrow> x # rx_remove r 0 (Suc k) xs
           | st # _ \<Rightarrow>
               (if fst st = k then x # rx_remove r 0 (Suc k) xs
                else rx_remove r (fst st - k - 1) (Suc k) xs))"

definition seqs :: "rx list \<Rightarrow> rx" where
  "seqs rs = foldr Seq rs (Lit [])"

definition is_space :: "char \<Rightarrow> bool" where
  \<comment> \<open>\<open>\s\<close>, and what \<open>trim\<close> removes: tab, LF, VT, FF, CR, space, no-break space\<close>
  "is_space c = (c \<in> {CHR 0x09, CHR 0x0A, CHR 0x0B, CHR 0x0C, CHR 0x0D, CHR 0x20, CHR 0xA0})"

definition is_word :: "char \<Rightarrow> bool" where
  \<comment> \<open>\<open>\w\<close>\<close>
  "is_word c =
     (let n = (of_char c :: nat)
      in (97 \<le> n \<and> n \<le> 122) \<or> (65 \<le> n \<and> n \<le> 90) \<or> (48 \<le> n \<and> n \<le> 57) \<or> n = 95)"

definition not_quote :: "char \<Rightarrow> bool" where
  \<comment> \<open>\<open>[^"]\<close>\<close>
  "not_quote c = (c \<noteq> CHR 0x22)"

definition any_char :: "char \<Rightarrow> bool" where
  \<comment> \<open>\<open>.\<close>: anything but a line terminator\<close>
  "any_char c = (c \<noteq> CHR 0x0A \<and> c \<noteq> CHR 0x0D)"

definition trim :: "string \<Rightarrow> string" where
  "trim s = rev (dropWhile is_space (rev (dropWhile is_space s)))"

section \<open>Template parser\<close>

definition rx_defMain :: rx where
  \<comment> \<open>\<open>/^def transform\(INPUT\):/\<close>\<close>
  \<open>rx_defMain = seqs [Bol, Lit ''def transform(INPUT):'']\<close>

definition rx_moduleDef :: rx where
  \<comment> \<open>\<open>/^def map_(\w+)\(INPUT, OUTPUT\):/\<close>\<close>
  \<open>rx_moduleDef =
     seqs [Bol, Lit ''def map_'', Grp 1 (Plus (Cls is_word)), Lit ''(INPUT, OUTPUT):'']\<close>

definition rx_knownDef :: rx where
  \<comment> \<open>\<open>/^def (transform|map_\w+)\(INPUT, OUTPUT\):/\<close>\<close>
  \<open>rx_knownDef =
     seqs [Bol, Lit ''def '',
           Grp 1 (Alt (Lit ''transform'') (Seq (Lit ''map_'') (Plus (Cls is_word)))),
           Lit ''(INPUT, OUTPUT):'']\<close>

definition rx_moduleCall :: rx where
  \<comment> \<open>\<open>/^map_(\w+)\(INPUT, OUTPUT\)/\<close>\<close>
  \<open>rx_moduleCall =
     seqs [Bol, Lit ''map_'', Grp 1 (Plus (Cls is_word)), Lit ''(INPUT, OUTPUT)'']\<close>

definition rx_transformCall :: rx where
  \<comment> \<open>\<open>(?:\.(\w+)\(\))?\<close>\<close>
  \<open>rx_transformCall = Opt (seqs [Lit ''.'', Grp 3 (Plus (Cls is_word)), Lit ''()''])\<close>

definition rx_simple :: rx where
  \<comment> \<open>\<open>/OUTPUT\["([^\"]+)"\]\s*=\s*INPUT\.([^\s.]+)(?:\.(\w+)\(\))?/\<close>\<close>
  \<open>rx_simple =
     seqs [Lit ''OUTPUT["'', Grp 1 (Plus (Cls not_quote)), Lit ''"]'',
           Star (Cls is_space), Lit ''='', Star (Cls is_space), Lit ''INPUT.'',
           Grp 2 (Plus (Cls (\<lambda>c. \<not> (is_space c \<or> c = CHR ''.'')))),
           rx_transformCall]\<close>

definition rx_nested :: rx where
  \<comment> \<open>\<open>/OUTPUT(\["[^"]+"\])+\s*=\s*INPUT\.([\w.]+?)(?:\.(\w+)\(\))?$/\<close>\<close>
  \<open>rx_nested =
     seqs [Lit ''OUTPUT'',
           Plus (Grp 1 (seqs [Lit ''["'', Plus (Cls not_quote), Lit ''"]''])),
           Star (Cls is_space), Lit ''='', Star (Cls is_space), Lit ''INPUT.'',
           Grp 2 (PlusLazy (Cls (\<lambda>c. is_word c \<or> c = CHR ''.''))),
           rx_transformCall, Eol]\<close>

definition rx_key :: rx where
  \<comment> \<open>\<open>/\["([^"]+)"\]/g\<close>\<close>
  \<open>rx_key = seqs [Lit ''["'', Grp 1 (Plus (Cls not_quote)), Lit ''"]'']\<close>

definition rx_cond :: rx where
  \<comment> \<open>\<open>/OUTPUT\["([^"]+)"\]\s*=\s*(.+) if INPUT\.(\w+) (==|!=|>|<) "([^"]+)" else (.+)/\<close>\<close>
  \<open>rx_cond =
     seqs [Lit ''OUTPUT["'', Grp 1 (Plus (Cls not_quote)), Lit ''"]'',
           Star (Cls is_space), Lit ''='', Star (Cls is_space),
           Grp 2 (Plus (Cls any_char)), Lit '' if INPUT.'', Grp 3 (Plus (Cls is_word)),
           Lit '' '', Grp 4 (Alt (Lit ''=='') (Alt (Lit ''!='') (Alt (Lit ''>'') (Lit ''<'')))),
           Lit '' "'', Grp 5 (Plus (Cls not_quote)), Lit ''" else '',
           Grp 6 (Plus (Cls any_char))]\<close>

definition rx_quotes :: rx where
  \<comment> \<open>\<open>/^\["']|["']$/g\<close>: the first branch is the four characters \<open>["']\<close> at the start,
      the second a quote at the end\<close>
  \<open>rx_quotes =
     Alt (Seq Bol (Lit [CHR ''['', CHR 0x22, CHR 0x27, CHR '']'']))
         (Seq (Cls (\<lambda>c. c = CHR 0x22 \<or> c = CHR 0x27)) Eol)\<close>

definition cleanVal :: "string \<Rightarrow> string" where
  \<comment> \<open>\<open>v.replace(/^\["']|["']$/g, '').replace(/INPUT\./g, '').trim()\<close>\<close>
  "cleanVal v = trim (rx_remove (Lit ''INPUT.'') 0 0 (rx_remove rx_quotes 0 0 v))"

definition cap :: "captures \<Rightarrow> nat \<Rightarrow> jsval" where
  "cap c n = (case c n of None \<Rightarrow> Undefined | Some s \<Rightarrow> Str s)"

definition cap_str :: "captures \<Rightarrow> nat \<Rightarrow> string" where
  \<comment> \<open>a capture used as a string; the groups read this way take part in every match\<close>
  "cap_str c n = (case c n of None \<Rightarrow> [] | Some s \<Rightarrow> s)"

definition or_null :: "jsval \<Rightarrow> jsval" where
  \<comment> \<open>\<open>v || null\<close>\<close>
  "or_null v = (if truthy v then v else Null)"

text \<open>
  The parser's variables. \<open>currentModule\<close> is either \<open>null\<close> or the module object pushed
  last, whose \<open>mappings\<close> array it grows in place: the model keeps the index of that module
  in \<open>modules\<close>. \<open>uid()\<close> reads the clock and a random number; the model takes the
  sequence of its results as a parameter and counts the calls. (The variable
  \<open>currentModuleName\<close> is written and never read.)
\<close>

record pstate =
  ps_modules :: "module list"
  currentModule :: "nat option"
  totalMappings :: nat
  uids :: nat

definition open_module :: "(nat \<Rightarrow> string) \<Rightarrow> jsval \<Rightarrow> pstate \<Rightarrow> pstate" where
  "open_module uid nm st =
     st\<lparr>ps_modules := ps_modules st @ [\<lparr>id_m = Str (uid (uids st)), name = nm, mappings = []\<rparr>],
        currentModule := Some (length (ps_modules st)),
        uids := Suc (uids st)\<rparr>"

definition push_mapping :: "(nat \<Rightarrow> string) \<Rightarrow> (jsval \<Rightarrow> mapping) \<Rightarrow> pstate \<Rightarrow> pstate" where
  \<comment> \<open>\<open>currentModule.mappings.push({ id: uid(), ... }); totalMappings++\<close>\<close>
  "push_mapping uid mk st =
     (case currentModule st of
        None \<Rightarrow> st
      | Some i \<Rightarrow>
          st\<lparr>ps_modules :=
               (ps_modules st)[i := (ps_modules st ! i)
                  \<lparr>mappings := mappings (ps_modules st ! i) @ [mk (Str (uid (uids st)))]\<rparr>],
             totalMappings := Suc (totalMappings st),
             uids := Suc (uids st)\<rparr>)"

definition parse_line :: "(nat \<Rightarrow> string) \<Rightarrow> string \<Rightarrow> pstate \<Rightarrow> pstate" where
  \<open>parse_line uid line st =
     (let trimmed = trim line
      in if match_js trimmed rx_defMain \<noteq> None then open_module uid (Str ''main'') st
         else
         (case match_js trimmed rx_moduleDef of
           Some moduleDefMatch \<Rightarrow> open_module uid (cap moduleDefMatch 1) st
         | None \<Rightarrow>
         (if take 4 trimmed = ''def '' \<and> match_js trimmed rx_knownDef = None
          then st\<lparr>currentModule := None\<rparr>
          else if currentModule st = None then st
          else
         (case match_js trimmed rx_moduleCall of
           Some moduleCallMatch \<Rightarrow>
             push_mapping uid
               (\<lambda>i. map_of [(''id'', i), (''moduleName'', cap moduleCallMatch 1),
                             (''type'', Str ''module_call''), (''isNew'', Bool False)]) st
         | None \<Rightarrow>
         (case match_js trimmed rx_simple of
           Some simpleMatch \<Rightarrow>
             push_mapping uid
               (\<lambda>i. map_of [(''id'', i), (''target'', cap simpleMatch 1),
                             (''source'', cap simpleMatch 2),
                             (''transform'', or_null (cap simpleMatch 3)),
                             (''transformation'', Str ''direct''), (''type'', Str ''field''),
                             (''isNew'', Bool False)]) st
         | None \<Rightarrow>
         (case match_js trimmed rx_nested of
           Some nestedMatch \<Rightarrow>
             (let pathParts = map (\<lambda>m. cap_str m 1) (rx_all rx_key 0 0 trimmed);
                  target = join ''.'' pathParts;
                  sourceParts = split_js (CHR ''.'') (cap_str nestedMatch 2);
                  source = join ''.'' sourceParts;
                  transform = or_null (cap nestedMatch 3)
              in push_mapping uid
                   (\<lambda>i. map_of [(''id'', i), (''target'', Str target), (''source'', Str source),
                                 (''transform'', transform),
                                 (''transformation'', Str ''direct''), (''type'', Str ''field''),
                                 (''isNew'', Bool False)]) st)
         | None \<Rightarrow>
         (case match_js trimmed rx_cond of
           Some condMatch \<Rightarrow>
             push_mapping uid
               (\<lambda>i. map_of [(''id'', i), (''target'', cap condMatch 1),
                             (''condField'', cap condMatch 3), (''condOp'', cap condMatch 4),
                             (''condValue'', cap condMatch 5),
                             (''thenValue'', Str (cleanVal (cap_str condMatch 2))),
                             (''elseValue'', Str (cleanVal (cap_str condMatch 6))),
                             (''transformation'', Str ''conditional''),
                             (''type'', Str ''field''), (''isNew'', Bool False)]) st
         | None \<Rightarrow> st)))))))\<close>

record parsed =
  parsed_modules :: "module list option"
  parsed_totalMappings :: nat

definition parseTemplate :: "(nat \<Rightarrow> string) \<Rightarrow> string \<Rightarrow> parsed" where
  \<comment> \<open>\<open>parsed_modules = None\<close> is the result \<open>modules: null\<close>\<close>
  "parseTemplate uid pythonCode =
     (let st = fold (parse_line uid) (split_js (CHR 0x0A) pythonCode)
                 \<lparr>ps_modules = [], currentModule = None, totalMappings = 0, uids = 0\<rparr>
      in \<lparr>parsed_modules = (if length (ps_modules st) > 0 then Some (ps_modules st) else None),
          parsed_totalMappings = totalMappings st\<rparr>)"

section \<open>The model and its operations\<close>

text \<open>
  The component state that the operations read and set. \<open>templateInfo\<close> is the text
  \<open>"<n> mappings, <k> modules"\<close>, kept as the two numbers (\<open>None\<close> for the empty text).
  An operation that needs a fresh identifier takes the result of its \<open>uid()\<close> call as an
  argument.
\<close>

record state =
  modules :: "module list"
  activeModule :: int
  originalModules :: "module list option"
  templateLoaded :: bool
  templateInfo :: "(nat \<times> nat) option"

definition initial :: "string \<Rightarrow> state" where
  "initial uidv =
     \<lparr>modules = [\<lparr>id_m = Str uidv, name = Str ''main'', mappings = []\<rparr>],
      activeModule = 0, originalModules = None, templateLoaded = False,
      templateInfo = None\<rparr>"

fun decimal :: "nat \<Rightarrow> string" where
  \<comment> \<open>a number in a template literal\<close>
  "decimal n =
     (if n < 10 then [''0123456789'' ! n]
      else decimal (n div 10) @ [''0123456789'' ! (n mod 10)])"

definition at :: "'a list \<Rightarrow> int \<Rightarrow> 'a option" where
  \<comment> \<open>the read \<open>xs[i]\<close>; \<open>None\<close> is \<open>undefined\<close>\<close>
  "at xs i = (if 0 \<le> i \<and> nat i < length xs then Some (xs ! nat i) else None)"

definition array_set :: "'a \<Rightarrow> 'a list \<Rightarrow> int \<Rightarrow> 'a \<Rightarrow> 'a list" where
  \<comment> \<open>the write \<open>xs[i] = v\<close> on a copy of the array. Past the end JavaScript grows the
      array and leaves holes at the skipped indices, for which the model puts \<open>hole\<close>; a
      negative index names an ordinary property and changes no element. The operations
      below are called with indices inside the array.\<close>
  "array_set hole xs i v =
     (if i < 0 then xs
      else if nat i < length xs then xs[nat i := v]
      else xs @ replicate (nat i - length xs) hole @ [v])"

definition remove_at :: "'a list \<Rightarrow> nat \<Rightarrow> 'a list" where
  \<comment> \<open>\<open>xs.filter((_, i) => i !== idx)\<close>\<close>
  "remove_at xs idx = map snd (filter (\<lambda>p. fst p \<noteq> idx) (enumerate 0 xs))"

definition no_module :: module where
  "no_module = \<lparr>id_m = Undefined, name = Undefined, mappings = []\<rparr>"

definition addModule :: "string \<Rightarrow> state \<Rightarrow> state" where
  "addModule uidv s =
     s\<lparr>modules := modules s @
          [\<lparr>id_m = Str uidv, name = Str (''module_'' @ decimal (length (modules s))),
            mappings = []\<rparr>],
       activeModule := int (length (modules s))\<rparr>"

definition rename_calls :: "jsval \<Rightarrow> string \<Rightarrow> mapping \<Rightarrow> mapping" where
  "rename_calls oldName nm m =
     (if get m ''type'' = Str ''module_call'' \<and> get m ''moduleName'' = oldName
      then m(''moduleName'' \<mapsto> Str nm) else m)"

definition updateModuleName :: "nat \<Rightarrow> string \<Rightarrow> state \<Rightarrow> error + state" where
  \<comment> \<open>\<open>modules[idx].name\<close> throws when there is no module at \<open>idx\<close>\<close>
  "updateModuleName idx nm s =
     (if length (modules s) \<le> idx then Inl TypeError
      else if name (modules s ! idx) = Str ''main'' then Inr s
      else let oldName = name (modules s ! idx)
           in if oldName = Str nm then Inr s
              else Inr (s\<lparr>modules :=
                     map (\<lambda>p. if fst p = idx then (snd p)\<lparr>name := Str nm\<rparr>
                               else (snd p)\<lparr>mappings :=
                                      map (rename_calls oldName nm) (mappings (snd p))\<rparr>)
                         (enumerate 0 (modules s))\<rparr>))"

definition deleteModule :: "nat \<Rightarrow> state \<Rightarrow> state" where
  "deleteModule idx s =
     (if length (modules s) = 1 then s
      else let newModules = remove_at (modules s) idx
           in s\<lparr>modules := newModules,
                activeModule := (if activeModule s \<ge> int (length newModules)
                                 then int (length newModules) - 1 else activeModule s)\<rparr>)"

definition updateModuleMappings :: "int \<Rightarrow> mapping list \<Rightarrow> state \<Rightarrow> state" where
  \<comment> \<open>\<open>newModules[moduleIdx] = { ...newModules[moduleIdx], mappings: newMappings }\<close>\<close>
  "updateModuleMappings moduleIdx newMappings s =
     s\<lparr>modules :=
         array_set no_module (modules s) moduleIdx
           ((case at (modules s) moduleIdx of None \<Rightarrow> no_module | Some m \<Rightarrow> m)
              \<lparr>mappings := newMappings\<rparr>)\<rparr>"

definition current_mappings :: "state \<Rightarrow> mapping list" where
  \<comment> \<open>\<open>modules[activeModule]?.mappings || []\<close>\<close>
  "current_mappings s =
     (case at (modules s) (activeModule s) of None \<Rightarrow> [] | Some m \<Rightarrow> mappings m)"

definition addMapping :: "string \<Rightarrow> state \<Rightarrow> state" where
  "addMapping uidv s =
     updateModuleMappings (activeModule s)
       (current_mappings s @
          [map_of [(''id'', Str uidv), (''target'', Str []), (''source'', Str []),
                   (''transformation'', Str ''direct''), (''type'', Str ''field''),
                   (''isNew'', Bool True)]]) s"

definition addModuleCall :: "string \<Rightarrow> state \<Rightarrow> state" where
  "addModuleCall uidv s =
     updateModuleMappings (activeModule s)
       (current_mappings s @
          [map_of [(''id'', Str uidv), (''moduleName'', Str []),
                   (''type'', Str ''module_call''), (''isNew'', Bool True)]]) s"

definition updateMapping :: "nat \<Rightarrow> mapping \<Rightarrow> state \<Rightarrow> state" where
  \<comment> \<open>\<open>newMappings[idx] = { ...newMappings[idx], ...updates, isNew: false }\<close>\<close>
  "updateMapping idx updates s =
     updateModuleMappings (activeModule s)
       (array_set Map.empty (current_mappings s) (int idx)
          (((case at (current_mappings s) (int idx) of None \<Rightarrow> Map.empty | Some m \<Rightarrow> m)
            ++ updates)(''isNew'' \<mapsto> Bool False))) s"

definition deleteMapping :: "nat \<Rightarrow> state \<Rightarrow> state" where
  "deleteMapping idx s =
     updateModuleMappings (activeModule s) (remove_at (current_mappings s) idx) s"

definition handleFile_template :: "(nat \<Rightarrow> string) \<Rightarrow> string \<Rightarrow> state \<Rightarrow> state" where
  \<comment> \<open>the \<open>"template"\<close> branch of \<open>handleFile\<close>, run on the text of the file. The copy made
      by \<open>JSON.parse(JSON.stringify(...))\<close> equals the parsed modules: the parser stores
      strings, \<open>null\<close> and booleans only.\<close>
  "handleFile_template uid content s =
     (let p = parseTemplate uid content
      in case parsed_modules p of
           Some ms \<Rightarrow>
             s\<lparr>modules := ms, originalModules := Some ms, activeModule := 0,
               templateLoaded := True,
               templateInfo := Some (parsed_totalMappings p, length ms)\<rparr>
         | None \<Rightarrow> s)"

datatype event =
    AddModule string
  | UpdateModuleName nat string
  | DeleteModule nat
  | SetActiveModule nat
  | AddMapping string
  | AddModuleCall string
  | UpdateMapping nat mapping
  | DeleteMapping nat
  | LoadTemplate "nat \<Rightarrow> string" string

fun step :: "event \<Rightarrow> state \<Rightarrow> state" where
  \<comment> \<open>one user action; a handler that throws sets no state\<close>
  "step (AddModule uidv) s = addModule uidv s"
| "step (UpdateModuleName idx nm) s =
     (case updateModuleName idx nm s of Inl e \<Rightarrow> s | Inr s' \<Rightarrow> s')"
| "step (DeleteModule idx) s = deleteModule idx s"
| "step (SetActiveModule idx) s = s\<lparr>activeModule := int idx\<rparr>"
| "step (AddMapping uidv) s = addMapping uidv s"
| "step (AddModuleCall uidv) s = addModuleCall uidv s"
| "step (UpdateMapping idx updates) s = updateMapping idx updates s"
| "step (DeleteMapping idx) s = deleteMapping idx s"
| "step (LoadTemplate uid content) s = handleFile_template uid content s"

section \<open>The layout of the generated text, as the specification words it\<close>

definition pushed :: "error + string list \<Rightarrow> string list" where
  "pushed r = (case r of Inl e \<Rightarrow> [] | Inr ls \<Rightarrow> ls)"

definition throws :: "mapping \<Rightarrow> bool" where
  \<comment> \<open>rendering the mapping raises\<close>
  "throws m = (if get m ''type'' = Str ''module_call'' then False else isl (assignment m))"

definition subroutines :: "module list \<Rightarrow> module list" where
  \<comment> \<open>the modules emitted as sub-routines, in model order\<close>
  "subroutines ms = filter (\<lambda>m. \<not> (name m = Str ''main'' \<or> mappings m = [])) ms"

definition visited :: "module list \<Rightarrow> mapping list" where
  \<comment> \<open>the mappings the generator renders, in the order it reaches them\<close>
  "visited ms =
     concat (map mappings (subroutines ms))
     @ (case find (\<lambda>m. name m = Str ''main'') ms of None \<Rightarrow> [] | Some m \<Rightarrow> mappings m)"

definition subroutine :: "module \<Rightarrow> string list" where
  \<open>subroutine m =
     [''def map_'' @ toStr (name m) @ ''(INPUT, OUTPUT):'',
      ''    """'' @ toStr (name m) @ '' mappings"""'']
     @ concat (map (\<lambda>mp. pushed (helper_mapping mp)) (mappings m)) @ ['''']\<close>

definition entry_point :: "module \<Rightarrow> string list" where
  \<open>entry_point m =
     [''def transform(INPUT):'', ''    """Main transformation"""'', ''    OUTPUT = {}'', ''    '']
     @ concat (map (\<lambda>mp. pushed (main_mapping mp)) (mappings m))
     @ [''    '', ''    return OUTPUT'']\<close>

definition layout :: "module list \<Rightarrow> string list" where
  \<open>layout ms =
     [''#!/usr/bin/env python3'', ''# GRIZZLY_TEMPLATE_V1'', ''"""'', ''Generated by Grizzly'',
      ''"""'', []]
     @ (if hasRegex ms then [''import re'', []] else [])
     @ concat (map subroutine (subroutines ms))
     @ (case find (\<lambda>m. name m = Str ''main'') ms of None \<Rightarrow> [] | Some m \<Rightarrow> entry_point m)\<close>

definition anonymous :: "module \<Rightarrow> module" where
  \<comment> \<open>a module without the identifiers that \<open>uid()\<close> made\<close>
  "anonymous m = m\<lparr>id_m := Undefined, mappings := map (\<lambda>mp. mp(''id'' := None)) (mappings m)\<rparr>"

section \<open>The models the mapper can hold\<close>

text \<open>
  The component writes the kind of a field mapping as \<open>"direct"\<close> or \<open>"conditional"\<close>
  (parser lines 431, 452 and 472, \<open>addMapping\<close> line 1139, \<open>autoMap\<close> line 1186) or as the
  registry key picked in the kind selector (lines 1406-1408), and it writes targets and
  branch values as the strings of its text inputs, field pickers and parser captures
  (lines 492-715, 1170-1173, 1404, 1432). \<open>well_formed\<close> asks less of a field mapping: that
  its kind is not one of the names the registry object inherits, and that its target and
  its two branch values are not the boolean \<open>true\<close>. An update made by the user interface
  is a partial object set through \<open>updateMapping\<close>; \<open>ui_update\<close> asks of it what the
  interface guarantees for these properties, and that it leaves \<open>type\<close> alone.
\<close>

definition well_formed :: "mapping \<Rightarrow> bool" where
  "well_formed m =
     (if get m ''type'' = Str ''module_call'' then True
      else toStr (get m ''transformation'') \<notin> set object_prototype
           \<and> get m ''target'' \<noteq> Bool True
           \<and> get m ''thenValue'' \<noteq> Bool True
           \<and> get m ''elseValue'' \<noteq> Bool True)"

definition well_formed_model :: "module list \<Rightarrow> bool" where
  "well_formed_model ms = list_all (\<lambda>md. list_all well_formed (mappings md)) ms"

definition ui_update :: "mapping \<Rightarrow> bool" where
  "ui_update u =
     (u ''type'' = None \<and> u ''target'' \<noteq> Some (Bool True)
      \<and> u ''thenValue'' \<noteq> Some (Bool True) \<and> u ''elseValue'' \<noteq> Some (Bool True)
      \<and> (case u ''transformation'' of
            None \<Rightarrow> True
          | Some k \<Rightarrow> toStr k \<notin> set object_prototype))"

fun ui_event :: "event \<Rightarrow> bool" where
  "ui_event (UpdateMapping idx updates) = ui_update updates"
| "ui_event ev = True"

inductive reachable :: "state \<Rightarrow> bool" where
  start: "reachable (initial uidv)"
| action: "reachable s \<Longrightarrow> ui_event ev \<Longrightarrow> reachable (step ev s)"

section \<open>The diff classes, as the specification words them\<close>

definition only_in ::
  "(string \<times> mapping) list \<Rightarrow> (string \<times> mapping) list \<Rightarrow> mapping list" where
  \<comment> \<open>the entries of the first flattening under a key that the second one lacks\<close>
  "only_in a b = map snd (filter (\<lambda>kv. map_of b (fst kv) = None) a)"

definition in_both ::
  "(string \<times> mapping) list \<Rightarrow> (string \<times> mapping) list \<Rightarrow> (mapping \<times> mapping) list" where
  \<comment> \<open>for each key of the first flattening that the second one has too, the two entries\<close>
  "in_both a b =
     concat (map (\<lambda>kv. case map_of b (fst kv) of None \<Rightarrow> [] | Some e \<Rightarrow> [(snd kv, e)]) a)"

section \<open>Sample models\<close>

definition ex_original :: "module list" where
  "ex_original =
     [\<lparr>id_m = Undefined, name = Str ''main'',
       mappings = [[''target'' \<mapsto> Str ''x'', ''source'' \<mapsto> Str ''a'']]\<rparr>]"

definition ex_current :: "module list" where
  "ex_current =
     [\<lparr>id_m = Undefined, name = Str ''main'',
       mappings = [[''target'' \<mapsto> Str ''x'', ''source'' \<mapsto> Str ''b''],
                   [''target'' \<mapsto> Str ''y'', ''source'' \<mapsto> Str ''c'']]\<rparr>]"

definition ex_collision :: "module list" where
  "ex_collision =
     [\<lparr>id_m = Str ''m_1'', name = Str ''main'',
       mappings = [map_of [(''id'', Str ''m_2''), (''target'', Str ''call_foo''),
                           (''source'', Str ''a''), (''transform'', Null),
                           (''transformation'', Str ''direct''), (''type'', Str ''field''),
                           (''isNew'', Bool False)],
                   map_of [(''id'', Str ''m_3''), (''moduleName'', Str ''foo''),
                           (''type'', Str ''module_call''), (''isNew'', Bool False)]]\<rparr>]"

definition ex_nested :: mapping where
  "ex_nested =
     map_of [(''id'', Str ''m_2''), (''target'', Str ''a.b.c''), (''source'', Str ''s''),
             (''transform'', Null), (''transformation'', Str ''direct''),
             (''type'', Str ''field''), (''isNew'', Bool False)]"

definition ex_flat :: mapping where
  "ex_flat =
     map_of [(''id'', Str ''m_3''), (''target'', Str ''x''), (''source'', Str ''s''),
             (''transform'', Str ''upper''), (''transformation'', Str ''direct''),
             (''type'', Str ''field''), (''isNew'', Bool False)]"

definition ex_main_first :: "string \<Rightarrow> module list" where
  \<comment> \<open>"main" first, then a module without mappings, then a helper; \<open>tag\<close> goes into
      every identifier\<close>
  "ex_main_first tag =
     [\<lparr>id_m = Str (tag @ ''1''), name = Str ''main'',
       mappings = [map_of [(''id'', Str (tag @ ''4'')), (''target'', Str ''x''),
                           (''source'', Str ''s''), (''transform'', Str ''upper''),
                           (''transformation'', Str ''direct''), (''type'', Str ''field''),
                           (''isNew'', Bool False)],
                   map_of [(''id'', Str (tag @ ''5'')), (''moduleName'', Str ''helper''),
                           (''type'', Str ''module_call''), (''isNew'', Bool False)]]\<rparr>,
      \<lparr>id_m = Str (tag @ ''2''), name = Str ''unused'', mappings = []\<rparr>,
      \<lparr>id_m = Str (tag @ ''3''), name = Str ''helper'',
       mappings = [map_of [(''id'', Str (tag @ ''6'')), (''target'', Str ''a.b.c''),
                           (''source'', Str ''s''), (''transform'', Null),
                           (''transformation'', Str ''direct''), (''type'', Str ''field''),
                           (''isNew'', Bool False)]]\<rparr>]"

definition ex_main_first_text :: string where
  \<comment> \<open>the script of \<open>ex_main_first\<close>, character by character\<close>
  \<open>ex_main_first_text =
     ''#!/usr/bin/env python3\<newline># GRIZZLY_TEMPLATE_V1\<newline>"""\<newline>Generated by Grizzly\<newline>"""\<newline>\<newline>def map_helper(INPUT, OUTPUT):\<newline>    """helper mappings"""\<newline>    OUTPUT["a"]["b"]["c"] = INPUT.s\<newline>\<newline>def transform(INPUT):\<newline>    """Main transformation"""\<newline>    OUTPUT = {}\<newline>    \<newline>    OUTPUT["x"] = INPUT.s.upper()\<newline>    # Call helper module\<newline>    map_helper(INPUT, OUTPUT)\<newline>    \<newline>    \<newline>    return OUTPUT''\<close>




definition ex_kind :: "string \<Rightarrow> module list" where
  \<comment> \<open>a field mapping of kind \<open>k\<close>, followed by a direct one\<close>
  "ex_kind k =
     [\<lparr>id_m = Str ''m_1'', name = Str ''main'',
       mappings = [map_of [(''id'', Str ''m_2''), (''target'', Str ''x''), (''source'', Str ''a''),
                           (''transformation'', Str k), (''type'', Str ''field''),
                           (''isNew'', Bool False)],
                   map_of [(''id'', Str ''m_3''), (''target'', Str ''y''), (''source'', Str ''b''),
                           (''transformation'', Str ''direct''), (''type'', Str ''field''),
                           (''isNew'', Bool False)]]\<rparr>]"

definition ex_dotted :: "module list" where
  \<comment> \<open>one direct mapping from the dotted source \<open>a.b\<close> to the target \<open>x\<close>\<close>
  "ex_dotted =
     [\<lparr>id_m = Str ''m_1'', name = Str ''main'',
       mappings = [map_of [(''id'', Str ''m_2''), (''target'', Str ''x''),
                           (''source'', Str ''a.b''), (''transform'', Null),
                           (''transformation'', Str ''direct''), (''type'', Str ''field''),
                           (''isNew'', Bool False)]]\<rparr>]"

definition ex_dotted_text :: string where
  \<open>ex_dotted_text =
     join [CHR 0x0A]
       [''#!/usr/bin/env python3'', ''# GRIZZLY_TEMPLATE_V1'', ''"""'', ''Generated by Grizzly'',
        ''"""'', [], ''def transform(INPUT):'', ''    """Main transformation"""'',
        ''    OUTPUT = {}'', ''    '', ''    OUTPUT["x"] = INPUT.a.b'', ''    '',
        ''    return OUTPUT'']\<close>

definition ex_dotted_parsed :: "(nat \<Rightarrow> string) \<Rightarrow> module list" where
  "ex_dotted_parsed uid =
     [\<lparr>id_m = Str (uid 0), name = Str ''main'',
       mappings = [map_of [(''id'', Str (uid 1)), (''target'', Str ''x''), (''source'', Str ''a''),
                           (''transform'', Null), (''transformation'', Str ''direct''),
                           (''type'', Str ''field''), (''isNew'', Bool False)]]\<rparr>]"

definition ex_self_call_text :: string where
  \<open>ex_self_call_text =
     join [CHR 0x0A]
       [''def map_foo(INPUT, OUTPUT):'', ''    map_foo(INPUT, OUTPUT)'',
        ''def transform(INPUT):'', ''    map_foo(INPUT, OUTPUT)'']\<close>

definition ex_self_call :: "(nat \<Rightarrow> string) \<Rightarrow> string \<Rightarrow> module list" where
  \<comment> \<open>the module \<open>nm\<close>, which calls \<open>foo\<close>, and "main", which calls \<open>nm\<close>\<close>
  "ex_self_call uid nm =
     [\<lparr>id_m = Str (uid 0), name = Str nm,
       mappings = [map_of [(''id'', Str (uid 1)), (''moduleName'', Str ''foo''),
                           (''type'', Str ''module_call''), (''isNew'', Bool False)]]\<rparr>,
      \<lparr>id_m = Str (uid 2), name = Str ''main'',
       mappings = [map_of [(''id'', Str (uid 3)), (''moduleName'', Str nm),
                           (''type'', Str ''module_call''), (''isNew'', Bool False)]]\<rparr>]"

section \<open>Facts about the code generator\<close>

lemma length_split_js: "length (split_js c s) = Suc (count_list s c)"
  by (induction s) (auto split: list.splits)

lemma single_bracket:
  \<open>length xs = 1 \<Longrightarrow>
   ''    OUTPUT["'' @ hd xs @ ''"] = '' @ code
   = ''    OUTPUT'' @ concat (map bracket xs) @ '' = '' @ code\<close>
  by (cases xs) (auto simp add: bracket_def)

lemma registry_direct: "TRANSFORMATION_PLUGINS ''direct'' = Plugin direct_generate"
  by (simp add: TRANSFORMATION_PLUGINS_def registry_def)


lemma forEach_result:
  "forEach f xs =
     (if list_ex (\<lambda>x. isl (f x)) xs then Inl TypeError
      else Inr (concat (map (\<lambda>x. pushed (f x)) xs)))"
proof (induction xs)
  case Nil
  show ?case by simp
next
  case (Cons x xs)
  show ?case
  proof (cases "f x")
    case (Inl e)
    then show ?thesis by (cases e) simp
  next
    case (Inr ls)
    then show ?thesis using Cons by (simp add: pushed_def)
  qed
qed

lemma forEach_map: "forEach f (map h xs) = forEach (\<lambda>x. f (h x)) xs"
  by (induction xs) (simp_all split: sum.splits)

lemma helper_mapping_isl: "isl (helper_mapping mp) = throws mp"
  by (simp add: helper_mapping_def throws_def)

lemma main_mapping_isl: "isl (main_mapping mp) = throws mp"
  by (simp add: main_mapping_def throws_def)

lemma helper_module_result:
  "helper_module m =
     (if name m = Str ''main'' \<or> mappings m = [] then Inr []
      else if list_ex throws (mappings m) then Inl TypeError else Inr (subroutine m))"
  by (simp add: helper_module_def forEach_result helper_mapping_isl subroutine_def)

lemma helpers_result:
  "forEach helper_module ms =
     (if list_ex throws (concat (map mappings (subroutines ms))) then Inl TypeError
      else Inr (concat (map subroutine (subroutines ms))))"
proof (induction ms)
  case Nil
  show ?case by (simp add: subroutines_def)
next
  case (Cons m ms)
  show ?case
  proof (cases "name m = Str ''main'' \<or> mappings m = []")
    case True
    then have "helper_module m = Inr []"
      by (simp add: helper_module_result)
    moreover have "subroutines (m # ms) = subroutines ms"
      using True by (auto simp add: subroutines_def)
    ultimately show ?thesis using Cons by simp
  next
    case False
    then have sub: "subroutines (m # ms) = m # subroutines ms"
      by (simp add: subroutines_def)
    show ?thesis
    proof (cases "list_ex throws (mappings m)")
      case True
      then have "helper_module m = Inl TypeError"
        using False by (simp add: helper_module_result)
      then show ?thesis using True sub by simp
    next
      case nothrow: False
      then have "helper_module m = Inr (subroutine m)"
        using False by (simp add: helper_module_result)
      then show ?thesis using nothrow sub Cons by simp
    qed
  qed
qed

lemma main_function_result:
  "main_function ms =
     (case find (\<lambda>m. name m = Str ''main'') ms of
        None \<Rightarrow> Inr []
      | Some m \<Rightarrow> if list_ex throws (mappings m) then Inl TypeError else Inr (entry_point m))"
  by (simp add: main_function_def forEach_result main_mapping_isl entry_point_def
        split: option.splits)

lemmas generate_defs =
  generateCode_def helper_module_def main_function_def helper_mapping_def main_mapping_def
  call_lines_def assignment_def TRANSFORMATION_PLUGINS_def registry_def object_prototype_def
  direct_generate_def get_def toStr_def truthy_def orElse_def header_def hasRegex_def bracket_def
  Let_def

lemma generateCode_result:
  "generateCode ms =
     (if list_ex throws (visited ms) then Inl TypeError
      else Inr (join [CHR 0x0A] (layout ms)))"
  by (simp add: generateCode_def helpers_result main_function_result visited_def layout_def
        header_def split: option.splits)

lemma join_newline: "join [c] ls = butlast (concat (map (\<lambda>l. l @ [c]) ls))"
proof (induction "[c]" ls rule: join.induct)
  case 1
  show ?case by simp
next
  case (2 x)
  show ?case by simp
next
  case (3 x y ys)
  have "concat (map (\<lambda>l. l @ [c]) (y # ys)) \<noteq> []"
    by simp
  then have "butlast ((x @ [c]) @ concat (map (\<lambda>l. l @ [c]) (y # ys)))
               = (x @ [c]) @ butlast (concat (map (\<lambda>l. l @ [c]) (y # ys)))"
    by (simp only: butlast_append if_False)
  then show ?case using 3 by simp
qed

subsection \<open>Well-formed models are rendered\<close>

lemma branchCode_returns: "v \<noteq> Bool True \<Longrightarrow> \<exists>code. branchCode v d = Inr code"
  by (cases v) (auto simp add: branchCode_def truthy_def)

lemma registry_returns:
  assumes "map_of registry k = Some g"
    and "get m ''thenValue'' \<noteq> Bool True" and "get m ''elseValue'' \<noteq> Bool True"
  shows "\<exists>code. g m = Inr code"
proof -
  have "g \<in> snd ` set registry"
    using assms(1) by (metis map_of_SomeD image_eqI snd_conv)
  then consider "g = direct_generate" | "g = conditional_generate" | "g = for_loop_generate"
    | "g = if_block_generate" | "g = break_generate" | "g = continue_generate"
    | "g = datetime_parse_generate" | "g = datetime_format_generate"
    | "g = datetime_add_generate" | "g = decimal_generate" | "g = regex_generate"
    by (auto simp add: registry_def)
  then show ?thesis
  proof cases
    case 2
    obtain a where a: "branchCode (get m ''thenValue'') ''value1'' = Inr a"
      using branchCode_returns [OF assms(2)] by blast
    obtain b where b: "branchCode (get m ''elseValue'') ''value2'' = Inr b"
      using branchCode_returns [OF assms(3)] by blast
    show ?thesis using 2 a b by (simp add: conditional_generate_def Let_def)
  qed (simp_all add: direct_generate_def for_loop_generate_def
         if_block_generate_def break_generate_def continue_generate_def
         datetime_parse_generate_def datetime_format_generate_def datetime_add_generate_def
         decimal_generate_def regex_generate_def Let_def)
qed

lemma truthy_target: "truthy v \<Longrightarrow> v \<noteq> Bool True \<Longrightarrow> \<exists>t. v = Str t"
  by (cases v) (auto simp add: truthy_def)

lemma well_formed_renders:
  assumes "well_formed m"
  shows "\<not> throws m"
proof (cases "get m ''type'' = Str ''module_call''")
  case True
  then show ?thesis by (simp add: throws_def)
next
  case False
  then have wf: "toStr (get m ''transformation'') \<notin> set object_prototype"
    "get m ''target'' \<noteq> Bool True" "get m ''thenValue'' \<noteq> Bool True"
    "get m ''elseValue'' \<noteq> Bool True"
    using assms by (simp_all add: well_formed_def)
  have "\<exists>ls. assignment m = Inr ls"
  proof (cases "map_of registry (toStr (get m ''transformation''))")
    case None
    then show ?thesis using wf(1) by (simp add: assignment_def TRANSFORMATION_PLUGINS_def)
  next
    case (Some g)
    obtain code where code: "g m = Inr code"
      using registry_returns [OF Some wf(3) wf(4)] by blast
    show ?thesis
    proof (cases "truthy (get m ''target'')")
      case True
      then obtain t where "get m ''target'' = Str t"
        using truthy_target wf(2) by blast
      then show ?thesis
        using Some code True by (simp add: assignment_def TRANSFORMATION_PLUGINS_def Let_def)
    next
      case False
      then show ?thesis using Some by (simp add: assignment_def TRANSFORMATION_PLUGINS_def)
    qed
  qed
  then show ?thesis using False by (auto simp add: throws_def)
qed

lemma visited_subset: "set (visited ms) \<subseteq> (\<Union>md \<in> set ms. set (mappings md))"
proof -
  have "find (\<lambda>m. name m = Str ''main'') ms = Some m \<Longrightarrow> m \<in> set ms" for m
    by (induction ms) (auto split: if_splits)
  then show ?thesis
    by (fastforce simp add: visited_def subroutines_def split: option.splits)
qed

lemma well_formed_model_renders:
  assumes "well_formed_model ms"
  shows "\<not> list_ex throws (visited ms)"
proof -
  have "\<forall>mp \<in> set (visited ms). well_formed mp"
    using assms visited_subset [of ms] by (auto simp add: well_formed_model_def list_all_iff)
  then show ?thesis
    using well_formed_renders by (auto simp add: list_ex_iff)
qed

lemma generateCode_returns:
  assumes "well_formed_model ms"
  shows "\<exists>text. generateCode ms = Inr text"
  using well_formed_model_renders [OF assms] generateCode_result [of ms] by simp



text \<open>
  C4. For every well-formed model, and so for every model the mapper can hold
  (\<open>reachable_well_formed\<close> below), the generator returns a text, and the text is these
  lines, each but the last followed by a line feed: the six header lines, the import line
  when some mapping is of the regex kind, one sub-routine for each module that is not
  called "main" and has a mapping, in the order of the model, and last the entry point
  made from the module called "main", which opens with \<open>OUTPUT = {}\<close> and closes with
  \<open>return OUTPUT\<close>, wherever that module stands in the list.
\<close>

theorem generateCode_layout:
  assumes "well_formed_model ms"
  shows "generateCode ms = Inr (butlast (concat (map (\<lambda>l. l @ [CHR 0x0A]) (layout ms))))"
  using well_formed_model_renders [OF assms] generateCode_result [of ms]
  by (simp add: join_newline)

theorem generateCode_layout_witness:
  "well_formed_model (ex_main_first ''m_'')
   \<and> generateCode (ex_main_first ''m_'') = Inr ex_main_first_text"
proof -
  have wf: "well_formed_model (ex_main_first ''m_'')"
    by (simp add: well_formed_model_def well_formed_def ex_main_first_def get_def toStr_def
          object_prototype_def)
  show ?thesis
    using wf generateCode_layout [OF wf]
    by (simp add: ex_main_first_text_def ex_main_first_def subroutines_def layout_def
          subroutine_def entry_point_def pushed_def helper_mapping_def main_mapping_def
          call_lines_def assignment_def TRANSFORMATION_PLUGINS_def registry_def
          direct_generate_def get_def toStr_def truthy_def orElse_def hasRegex_def
          bracket_def Let_def)
qed



lemma generateCode_inherited_kind: "generateCode (ex_kind ''constructor'') = Inl TypeError"
  by (simp add: ex_kind_def generate_defs)

text \<open>
  C7. A field mapping that is rendered gives one line, in a sub-routine as in the entry
  point: \<open>OUTPUT\<close>, one bracketed key for each segment of the target between dots (one more
  than the target has dots), \<open> = \<close> and the expression of its kind. The target \<open>a.b.c\<close>
  gives \<open>OUTPUT["a"]["b"]["c"] = ...\<close> and the target \<open>x\<close> gives \<open>OUTPUT["x"] = ...\<close>.
\<close>

theorem nested_target_rendering:
  assumes "get m ''type'' \<noteq> Str ''module_call''"
    and "TRANSFORMATION_PLUGINS (toStr (get m ''transformation'')) = Plugin generate"
    and "get m ''target'' = Str t" and "t \<noteq> []"
    and "generate m = Inr code"
  shows \<open>helper_mapping m
           = Inr [''    OUTPUT'' @ concat (map bracket (split_js (CHR ''.'') t)) @ '' = '' @ code]
       \<and> main_mapping m
           = Inr [''    OUTPUT'' @ concat (map bracket (split_js (CHR ''.'') t)) @ '' = '' @ code]
       \<and> length (map bracket (split_js (CHR ''.'') t)) = Suc (count_list t (CHR ''.''))\<close>
proof -
  have "assignment m
          = Inr [''    OUTPUT'' @ concat (map bracket (split_js (CHR ''.'') t)) @ '' = '' @ code]"
    using assms(2-5) single_bracket [of "split_js (CHR ''.'') t" code]
    by (simp add: assignment_def truthy_def Let_def)
  then show ?thesis
    using assms(1) by (simp add: helper_mapping_def main_mapping_def length_split_js)
qed

theorem nested_target_rendering_witness:
  \<open>helper_mapping ex_nested = Inr [''    OUTPUT["a"]["b"]["c"] = INPUT.s'']
   \<and> main_mapping ex_nested = Inr [''    OUTPUT["a"]["b"]["c"] = INPUT.s'']
   \<and> helper_mapping ex_flat = Inr [''    OUTPUT["x"] = INPUT.s.upper()'']
   \<and> main_mapping ex_flat = Inr [''    OUTPUT["x"] = INPUT.s.upper()'']\<close>
  using nested_target_rendering [of ex_nested direct_generate "''a.b.c''" "''INPUT.s''"]
    nested_target_rendering [of ex_flat direct_generate "''x''" "''INPUT.s.upper()''"]
  by (simp add: ex_nested_def ex_flat_def get_def toStr_def registry_direct
        direct_generate_def orElse_def truthy_def bracket_def)

subsection \<open>The identifiers play no part\<close>

lemma get_without_id: "f \<noteq> ''id'' \<Longrightarrow> get (mp(''id'' := None)) f = get mp f"
  by (simp add: get_def)

lemma registry_ignores_id:
  assumes "map_of registry k = Some g"
  shows "g (mp(''id'' := None)) = g mp"
proof -
  have "g \<in> snd ` set registry"
    using assms by (metis map_of_SomeD image_eqI snd_conv)
  then consider "g = direct_generate" | "g = conditional_generate" | "g = for_loop_generate"
    | "g = if_block_generate" | "g = break_generate" | "g = continue_generate"
    | "g = datetime_parse_generate" | "g = datetime_format_generate"
    | "g = datetime_add_generate" | "g = decimal_generate" | "g = regex_generate"
    by (auto simp add: registry_def)
  then show ?thesis
    by cases
      (simp_all add: direct_generate_def conditional_generate_def for_loop_generate_def
         if_block_generate_def break_generate_def continue_generate_def
         datetime_parse_generate_def datetime_format_generate_def datetime_add_generate_def
         decimal_generate_def decimal_binop_def regex_generate_def get_without_id Let_def
         cong: if_cong sum.case_cong)
qed

lemma assignment_ignores_id: "assignment (mp(''id'' := None)) = assignment mp"
proof (cases "map_of registry (toStr (get mp ''transformation''))")
  case None
  then show ?thesis
    by (simp add: assignment_def TRANSFORMATION_PLUGINS_def get_without_id split: jsval.splits)
next
  case (Some g)
  then show ?thesis
    using registry_ignores_id [OF Some, of mp]
    by (simp add: assignment_def TRANSFORMATION_PLUGINS_def get_without_id split: jsval.splits)
qed

lemma helper_mapping_ignores_id: "helper_mapping (mp(''id'' := None)) = helper_mapping mp"
  by (simp add: helper_mapping_def assignment_ignores_id call_lines_def get_without_id)

lemma main_mapping_ignores_id: "main_mapping (mp(''id'' := None)) = main_mapping mp"
  by (simp add: main_mapping_def assignment_ignores_id call_lines_def get_without_id)

lemma helper_module_anonymous: "helper_module (anonymous m) = helper_module m"
  by (simp add: helper_module_def anonymous_def forEach_map helper_mapping_ignores_id
        cong: sum.case_cong)

lemma find_anonymous:
  "find (\<lambda>m. name m = Str ''main'') (map anonymous ms)
   = map_option anonymous (find (\<lambda>m. name m = Str ''main'') ms)"
  by (induction ms) (simp_all add: anonymous_def)

lemma main_function_anonymous: "main_function (map anonymous ms) = main_function ms"
  by (simp add: main_function_def find_anonymous anonymous_def forEach_map
        main_mapping_ignores_id split: option.splits cong: sum.case_cong)

lemma hasRegex_anonymous: "hasRegex (map anonymous ms) = hasRegex ms"
  by (simp add: hasRegex_def list_ex_iff anonymous_def get_without_id)

lemma generateCode_anonymous: "generateCode (map anonymous ms) = generateCode ms"
  by (simp add: generateCode_def forEach_map helper_module_anonymous main_function_anonymous
        hasRegex_anonymous cong: sum.case_cong)

text \<open>
  C8. The generator is a function of the module list alone: it reads no clock and no
  random number, and of the model it does not even read the identifiers that \<open>uid()\<close> made
  from them. Two module lists that are equal up to these identifiers, and so any two
  calls on the same list, give the same result.
\<close>

theorem generateCode_deterministic:
  assumes "map anonymous ms = map anonymous ms'"
  shows "generateCode ms = generateCode ms'"
  using assms generateCode_anonymous [of ms] generateCode_anonymous [of ms'] by simp

theorem generateCode_deterministic_witness:
  "map anonymous (ex_main_first ''m_1700000000000_'') = map anonymous (ex_main_first ''m_1700000000999_'')
   \<and> ex_main_first ''m_1700000000000_'' \<noteq> ex_main_first ''m_1700000000999_''
   \<and> generateCode (ex_main_first ''m_1700000000000_'') = generateCode (ex_main_first ''m_1700000000999_'')"
  using generateCode_deterministic
          [of "ex_main_first ''m_1700000000000_''" "ex_main_first ''m_1700000000999_''"]
  by (simp add: ex_main_first_def anonymous_def)

section \<open>Facts about the change diff engine\<close>

lemma fold_classify:
  "fold (classify b) a ch =
     ch\<lparr>added := added ch @ only_in a b,
        modified := modified ch @ filter (\<lambda>p. differs (fst p) (snd p)) (in_both a b),
        unchanged := unchanged ch
                     @ map fst (filter (\<lambda>p. \<not> differs (fst p) (snd p)) (in_both a b))\<rparr>"
proof (induction a arbitrary: ch)
  case Nil
  show ?case by (simp add: only_in_def in_both_def)
next
  case (Cons kv a)
  have "fold (classify b) (kv # a) ch = fold (classify b) a (classify b kv ch)"
    by simp
  also have "\<dots> = (classify b kv ch)
     \<lparr>added := added (classify b kv ch) @ only_in a b,
      modified := modified (classify b kv ch)
                  @ filter (\<lambda>p. differs (fst p) (snd p)) (in_both a b),
      unchanged := unchanged (classify b kv ch)
                  @ map fst (filter (\<lambda>p. \<not> differs (fst p) (snd p)) (in_both a b))\<rparr>"
    by (rule Cons.IH)
  also have "\<dots> = ch
     \<lparr>added := added ch @ only_in (kv # a) b,
      modified := modified ch @ filter (\<lambda>p. differs (fst p) (snd p)) (in_both (kv # a) b),
      unchanged := unchanged ch
                  @ map fst (filter (\<lambda>p. \<not> differs (fst p) (snd p)) (in_both (kv # a) b))\<rparr>"
    by (cases "map_of b (fst kv)") (simp_all add: classify_def only_in_def in_both_def)
  finally show ?case .
qed

lemma fold_find_removed:
  "fold (find_removed a) b ch = ch\<lparr>removed := removed ch @ only_in b a\<rparr>"
proof (induction b arbitrary: ch)
  case Nil
  show ?case by (simp add: only_in_def)
next
  case (Cons kv b)
  have "fold (find_removed a) (kv # b) ch = fold (find_removed a) b (find_removed a kv ch)"
    by simp
  also have "\<dots> = (find_removed a kv ch)
     \<lparr>removed := removed (find_removed a kv ch) @ only_in b a\<rparr>"
    by (rule Cons.IH)
  also have "\<dots> = ch\<lparr>removed := removed ch @ only_in (kv # b) a\<rparr>"
    by (cases "map_of a (fst kv)") (simp_all add: find_removed_def only_in_def)
  finally show ?case .
qed

lemma assign_keys: "set (map fst (assign flat k v)) = insert k (set (map fst flat))"
  by (induction flat) auto

lemma assign_distinct: "distinct (map fst flat) \<Longrightarrow> distinct (map fst (assign flat k v))"
proof (induction flat)
  case Nil
  show ?case by simp
next
  case (Cons p flat)
  then show ?case using assign_keys [of flat k v] by (auto simp del: set_map)
qed

lemma fold_assign_distinct:
  "distinct (map fst flat) \<Longrightarrow>
   distinct (map fst (fold (\<lambda>m flat. assign flat (kf m) (vf m)) xs flat))"
  by (induction xs arbitrary: flat) (simp_all add: assign_distinct)

lemma flatten_distinct_from:
  "distinct (map fst flat) \<Longrightarrow>
   distinct (map fst
     (fold (\<lambda>md flat. fold (\<lambda>m flat. assign flat (flatKey (name md) m) (entry (name md) m))
                            (mappings md) flat)
           ms flat))"
  by (induction ms arbitrary: flat) (simp_all add: fold_assign_distinct)

lemma flatten_distinct: "distinct (map fst (flatten ms))"
  unfolding flatten_def by (rule flatten_distinct_from) simp

lemmas diff_defs =
  calculateChanges_def flatten_def flatKey_def get_def toStr_def classify_def find_removed_def
  differs_def no_changes_def entry_def

text \<open>
  C3. Without an original snapshot all four lists are empty. With one, each flattening
  has every key once, and the engine reports: as added, the current entries under keys
  the original lacks; as removed, the original entries under keys the current model
  lacks; and of the keys in both it reports the pair of entries as modified when they
  differ in \<open>source\<close>, \<open>transformation\<close>, \<open>transform\<close> or \<open>moduleName\<close>, and the current entry
  as unchanged when they do not. For the original \<open>{main: [x from a]}\<close> and the current
  \<open>{main: [x from b, y from c]}\<close> that is: modified \<open>x\<close>, added \<open>y\<close>, nothing removed.
\<close>

theorem calculateChanges_classification:
  "calculateChanges None ms = \<lparr>added = [], removed = [], modified = [], unchanged = []\<rparr>
   \<and> added (calculateChanges (Some orig) ms) = only_in (flatten ms) (flatten orig)
   \<and> removed (calculateChanges (Some orig) ms) = only_in (flatten orig) (flatten ms)
   \<and> modified (calculateChanges (Some orig) ms)
       = filter (\<lambda>p. differs (fst p) (snd p)) (in_both (flatten ms) (flatten orig))
   \<and> unchanged (calculateChanges (Some orig) ms)
       = map fst (filter (\<lambda>p. \<not> differs (fst p) (snd p))
                         (in_both (flatten ms) (flatten orig)))
   \<and> distinct (map fst (flatten ms))
   \<and> calculateChanges (Some ex_original) ex_current
       = \<lparr>added = [entry (Str ''main'') [''target'' \<mapsto> Str ''y'', ''source'' \<mapsto> Str ''c'']],
          removed = [],
          modified = [(entry (Str ''main'') [''target'' \<mapsto> Str ''x'', ''source'' \<mapsto> Str ''b''],
                       entry (Str ''main'') [''target'' \<mapsto> Str ''x'', ''source'' \<mapsto> Str ''a''])],
          unchanged = []\<rparr>"
proof -
  have none: "calculateChanges None ms
                = \<lparr>added = [], removed = [], modified = [], unchanged = []\<rparr>"
    by (simp add: calculateChanges_def no_changes_def)
  have a: "added (calculateChanges (Some orig) ms) = only_in (flatten ms) (flatten orig)"
    by (simp add: calculateChanges_def fold_classify fold_find_removed no_changes_def Let_def)
  have r: "removed (calculateChanges (Some orig) ms) = only_in (flatten orig) (flatten ms)"
    by (simp add: calculateChanges_def fold_classify fold_find_removed no_changes_def Let_def)
  have m: "modified (calculateChanges (Some orig) ms)
       = filter (\<lambda>p. differs (fst p) (snd p)) (in_both (flatten ms) (flatten orig))"
    by (simp add: calculateChanges_def fold_classify fold_find_removed no_changes_def Let_def)
  have u: "unchanged (calculateChanges (Some orig) ms)
       = map fst (filter (\<lambda>p. \<not> differs (fst p) (snd p))
                         (in_both (flatten ms) (flatten orig)))"
    by (simp add: calculateChanges_def fold_classify fold_find_removed no_changes_def Let_def)
  have d: "distinct (map fst (flatten ms))"
    by (rule flatten_distinct)
  have ex: "calculateChanges (Some ex_original) ex_current
       = \<lparr>added = [entry (Str ''main'') [''target'' \<mapsto> Str ''y'', ''source'' \<mapsto> Str ''c'']],
          removed = [],
          modified = [(entry (Str ''main'') [''target'' \<mapsto> Str ''x'', ''source'' \<mapsto> Str ''b''],
                       entry (Str ''main'') [''target'' \<mapsto> Str ''x'', ''source'' \<mapsto> Str ''a''])],
          unchanged = []\<rparr>"
    by (simp add: ex_original_def ex_current_def diff_defs)
  from none a r m u d ex show ?thesis
    by (intro conjI) assumption+
qed

theorem calculateChanges_classification_witness:
  "map fst (flatten ex_original) = [''main:x'']
   \<and> map fst (flatten ex_current) = [''main:x'', ''main:y'']
   \<and> added (calculateChanges (Some ex_current) ex_original) = []
   \<and> map (\<lambda>e. get e ''target'') (removed (calculateChanges (Some ex_current) ex_original))
       = [Str ''y'']
   \<and> map (\<lambda>p. (get (fst p) ''source'', get (snd p) ''source''))
          (modified (calculateChanges (Some ex_current) ex_original))
       = [(Str ''a'', Str ''b'')]
   \<and> unchanged (calculateChanges (Some ex_current) ex_current)
       = map snd (flatten ex_current)"
  using calculateChanges_classification [of ex_original ex_current]
    calculateChanges_classification [of ex_current ex_current]
  by (simp add: only_in_def in_both_def ex_original_def ex_current_def flatten_def flatKey_def
        get_def toStr_def differs_def entry_def)

text \<open>
  C5. The key of a field mapping is the module name, a colon and the target; the key of a
  module call is the module name, a colon, \<open>call_\<close> and the callee. A field mapping whose
  target is \<open>call_foo\<close> and a call of \<open>foo\<close> in the same module get the same key
  \<open>main:call_foo\<close>, and the flattening of the module that holds both has the one entry
  written last, the call.
\<close>

theorem flatKey_collision:
  "map (flatKey (Str ''main'')) (mappings (hd ex_collision)) = [''main:call_foo'', ''main:call_foo'']
   \<and> map (\<lambda>m. get m ''type'') (mappings (hd ex_collision)) = [Str ''field'', Str ''module_call'']
   \<and> map fst (flatten ex_collision) = [''main:call_foo'']
   \<and> map (\<lambda>kv. get (snd kv) ''type'') (flatten ex_collision) = [Str ''module_call'']"
  by (simp add: flatKey_def get_def toStr_def flatten_def ex_collision_def entry_def)

section \<open>Facts about the operations on the model\<close>

lemma remove_at_from:
  "map snd (filter (\<lambda>p. fst p \<noteq> n + idx) (enumerate n xs)) = take idx xs @ drop (Suc idx) xs"
proof (induction xs arbitrary: n idx)
  case Nil
  show ?case by simp
next
  case (Cons x xs)
  show ?case
  proof (cases idx)
    case 0
    have "filter (\<lambda>p. fst p \<noteq> n) (enumerate (Suc n) xs) = enumerate (Suc n) xs"
      by (rule filter_True) (auto simp add: in_set_enumerate_eq)
    then show ?thesis using 0 by simp
  next
    case (Suc j)
    then show ?thesis using Cons [of "Suc n" j] by simp
  qed
qed

lemma remove_at_take_drop: "remove_at xs idx = take idx xs @ drop (Suc idx) xs"
  using remove_at_from [of 0 idx xs] by (simp add: remove_at_def)

lemma length_remove_at: "length xs - 1 \<le> length (remove_at xs idx)"
  by (simp add: remove_at_take_drop)

lemma length_array_set: "length xs \<le> length (array_set hole xs i v)"
  by (simp add: array_set_def)

lemma updateModuleMappings_keeps:
  assumes "modules s \<noteq> []"
  shows "modules (updateModuleMappings i new s) \<noteq> []"
proof -
  have "length (modules s) \<le> length (modules (updateModuleMappings i new s))"
    by (simp add: updateModuleMappings_def length_array_set)
  then show ?thesis using assms by auto
qed

lemma deleteModule_keeps:
  assumes "modules s \<noteq> []"
  shows "modules (deleteModule idx s) \<noteq> []"
proof (cases "length (modules s) = 1")
  case True
  then show ?thesis using assms by (simp add: deleteModule_def)
next
  case False
  have "length (modules s) \<noteq> 0" using assms by simp
  then have "2 \<le> length (modules s)" using False by arith
  then have "1 \<le> length (remove_at (modules s) idx)"
    using length_remove_at [of "modules s" idx] by arith
  then show ?thesis using False by (auto simp add: deleteModule_def Let_def)
qed

lemma updateModuleName_length:
  "updateModuleName idx nm s = Inr s' \<Longrightarrow> length (modules s') = length (modules s)"
  by (auto simp add: updateModuleName_def Let_def split: if_splits)

lemma updateModuleName_keeps:
  "modules s \<noteq> [] \<Longrightarrow> updateModuleName idx nm s = Inr s' \<Longrightarrow> modules s' \<noteq> []"
  using updateModuleName_length [of idx nm s s'] by auto

lemma updateModuleName_noop:
  "idx < length (modules s) \<Longrightarrow>
   name (modules s ! idx) = Str ''main'' \<or> name (modules s ! idx) = Str nm \<Longrightarrow>
   updateModuleName idx nm s = Inr s"
  by (auto simp add: updateModuleName_def Let_def)

lemma updateModuleName_modules:
  assumes "idx < length (modules s)" and "name (modules s ! idx) \<noteq> Str ''main''"
    and "name (modules s ! idx) \<noteq> Str nm" and "i < length (modules s)"
  shows "\<exists>s'. updateModuleName idx nm s = Inr s'
     \<and> modules s' ! i =
         (if i = idx then (modules s ! i)\<lparr>name := Str nm\<rparr>
          else (modules s ! i)\<lparr>mappings :=
                 map (rename_calls (name (modules s ! idx)) nm) (mappings (modules s ! i))\<rparr>)"
  using assms by (simp add: updateModuleName_def Let_def nth_enumerate_eq)

lemma rename_calls_fields:
  "f \<noteq> ''moduleName'' \<Longrightarrow> get (rename_calls old nm m) f = get m f"
  by (simp add: rename_calls_def get_def)

lemma parseTemplate_not_empty: "parsed_modules (parseTemplate uid content) \<noteq> Some []"
  by (simp add: parseTemplate_def Let_def)

lemma handleFile_template_modules:
  "modules (handleFile_template uid content s) =
     (case parsed_modules (parseTemplate uid content) of None \<Rightarrow> modules s | Some ms \<Rightarrow> ms)"
  by (simp add: handleFile_template_def Let_def split: option.splits)

lemma handleFile_template_sentinel:
  "parsed_modules (parseTemplate uid content) = None \<Longrightarrow> handleFile_template uid content s = s"
  by (simp add: handleFile_template_def Let_def)

lemma step_keeps:
  assumes "modules s \<noteq> []"
  shows "modules (step ev s) \<noteq> []"
proof (cases ev)
  case (LoadTemplate uid content)
  then show ?thesis
    using assms parseTemplate_not_empty [of uid content]
    by (auto simp add: handleFile_template_modules split: option.splits)
next
  case (UpdateModuleName idx nm)
  then show ?thesis
    using assms updateModuleName_keeps [of s idx nm]
    by (auto split: sum.splits)
qed (use assms in \<open>simp_all add: addModule_def deleteModule_keeps updateModuleMappings_keeps
       addMapping_def addModuleCall_def updateMapping_def deleteMapping_def\<close>)

text \<open>
  C9. The list of modules is never empty: it starts with the one module "main", and every
  operation (adding, renaming and deleting a module; selecting one; adding, updating and
  deleting a mapping; loading a template) leaves a list with a module in it when it finds
  one. Deleting from a list of one module changes nothing. The parser never returns an
  empty list of modules, and loading a template replaces the list only by the list the
  parser returned.
\<close>

theorem modules_never_empty:
  "modules (initial uidv) \<noteq> []
   \<and> (modules s \<noteq> [] \<longrightarrow> modules (step ev s) \<noteq> [])
   \<and> (length (modules s) = 1 \<longrightarrow> deleteModule idx s = s)
   \<and> parsed_modules (parseTemplate uid content) \<noteq> Some []
   \<and> modules (handleFile_template uid content s) =
       (case parsed_modules (parseTemplate uid content) of
          None \<Rightarrow> modules s | Some ms \<Rightarrow> ms)"
  using step_keeps [of s ev] parseTemplate_not_empty [of uid content]
    handleFile_template_modules [of uid content s]
  by (simp add: initial_def deleteModule_def)

theorem modules_never_empty_witness:
  "modules (initial ''m_0'') \<noteq> []
   \<and> length (modules (initial ''m_0'')) = 1
   \<and> deleteModule 0 (initial ''m_0'') = initial ''m_0''
   \<and> modules (step (DeleteModule 0) (initial ''m_0'')) \<noteq> []
   \<and> modules (step (DeleteModule 1) (step (AddModule ''m_1'') (initial ''m_0'')))
       = [\<lparr>id_m = Str ''m_0'', name = Str ''main'', mappings = []\<rparr>]"
  using modules_never_empty [of "''m_0''" "initial ''m_0''" "DeleteModule 0" 0 "\<lambda>n. []" "[]"]
  by (simp add: initial_def deleteModule_def addModule_def remove_at_def)

section \<open>Facts about the template parser\<close>

lemmas rx_defs =
  rx_defMain_def rx_moduleDef_def rx_knownDef_def rx_moduleCall_def rx_transformCall_def
  rx_simple_def rx_nested_def rx_key_def rx_cond_def rx_quotes_def seqs_def is_space_def
  is_word_def not_quote_def any_char_def

lemmas parse_defs =
  parseTemplate_def parse_line_def trim_def match_js_def open_module_def push_mapping_def
  cap_def cap_str_def or_null_def truthy_def cleanVal_def Let_def

subsection \<open>A text without a definition line\<close>

text \<open>
  Both patterns that open a module are anchored at the start of the trimmed line and begin
  with \<open>def \<close>. A text none of whose lines begins so opens no module, and the parser
  returns \<open>modules: null\<close> for it.
\<close>

lemma rx_exec_Bol_later: "0 < k \<Longrightarrow> rx_exec (Seq Bol r) k s = None"
proof (induction s arbitrary: k)
  case Nil
  then have "rx_match (Seq Bol r) (k, [], Map.empty) = []"
    by simp
  then show ?case
    by (subst rx_exec.simps) (simp only: list.case)
next
  case (Cons x xs)
  then have "rx_match (Seq Bol r) (k, x # xs, Map.empty) = []"
    by simp
  then have "rx_exec (Seq Bol r) k (x # xs) = rx_exec (Seq Bol r) (Suc k) xs"
    by (subst rx_exec.simps) (simp only: list.case)
  then show ?case
    using Cons.IH [of "Suc k"] by (simp del: rx_exec.simps)
qed

lemma rx_exec_Bol_Lit:
  assumes "rx_exec (Seq Bol (Seq (Lit l) r)) 0 s \<noteq> None"
  shows "take (length l) s = l"
proof (rule ccontr)
  assume "take (length l) s \<noteq> l"
  then have none: "rx_match (Seq Bol (Seq (Lit l) r)) (0, s, Map.empty) = []"
    by simp
  have "rx_exec (Seq Bol (Seq (Lit l) r)) 0 s
          = (case s of [] \<Rightarrow> None | x # xs \<Rightarrow> rx_exec (Seq Bol (Seq (Lit l) r)) (Suc 0) xs)"
    by (subst rx_exec.simps) (simp only: none list.case)
  then have "rx_exec (Seq Bol (Seq (Lit l) r)) 0 s = None"
    by (cases s) (simp_all add: rx_exec_Bol_later del: rx_exec.simps)
  then show False using assms by simp
qed

lemma take_prefix:
  assumes "take n s = l" and "m \<le> n"
  shows "take m s = take m l"
proof -
  have "take m (take n s) = take m s"
    using assms(2) by (simp add: min_def)
  then show ?thesis using assms(1) by simp
qed

lemma defMain_starts_def:
  assumes "match_js t rx_defMain \<noteq> None"
  shows "take 4 t = ''def ''"
proof -
  have "rx_exec (Seq Bol (Seq (Lit ''def transform(INPUT):'') (Lit []))) 0 t \<noteq> None"
    using assms by (simp add: match_js_def rx_defMain_def seqs_def del: rx_exec.simps)
  then have "take (length ''def transform(INPUT):'') t = ''def transform(INPUT):''"
    by (rule rx_exec_Bol_Lit)
  then have "take 4 t = take 4 ''def transform(INPUT):''"
    by (rule take_prefix) simp
  then show ?thesis by simp
qed

lemma moduleDef_starts_def:
  assumes "match_js t rx_moduleDef \<noteq> None"
  shows "take 4 t = ''def ''"
proof -
  have "rx_exec (Seq Bol (Seq (Lit ''def map_'')
          (Seq (Grp 1 (Plus (Cls is_word))) (Seq (Lit ''(INPUT, OUTPUT):'') (Lit [])))))
          0 t \<noteq> None"
    using assms by (simp add: match_js_def rx_moduleDef_def seqs_def del: rx_exec.simps)
  then have "take (length ''def map_'') t = ''def map_''"
    by (rule rx_exec_Bol_Lit)
  then have "take 4 t = take 4 ''def map_''"
    by (rule take_prefix) simp
  then show ?thesis by simp
qed

lemma parse_line_outside:
  assumes "take 4 (trim line) \<noteq> ''def ''" and "currentModule st = None"
  shows "parse_line uid line st = st"
proof -
  have a: "match_js (trim line) rx_defMain = None"
    using assms(1) defMain_starts_def by blast
  have b: "match_js (trim line) rx_moduleDef = None"
    using assms(1) moduleDef_starts_def by blast
  show ?thesis
    unfolding parse_line_def Let_def a b
    by (simp only: assms simp_thms if_False if_True option.case)
qed

lemma fold_parse_line_outside:
  assumes "\<forall>line \<in> set ls. take 4 (trim line) \<noteq> ''def ''" and "currentModule st = None"
  shows "fold (parse_line uid) ls st = st"
  using assms by (induction ls) (simp_all add: parse_line_outside)

lemma parseTemplate_no_def:
  assumes "\<forall>line \<in> set (split_js (CHR 0x0A) content). take 4 (trim line) \<noteq> ''def ''"
  shows "parseTemplate uid content = \<lparr>parsed_modules = None, parsed_totalMappings = 0\<rparr>"
  using fold_parse_line_outside
          [OF assms,
           of "\<lparr>ps_modules = [], currentModule = None, totalMappings = 0, uids = 0\<rparr>" uid]
  by (simp add: parseTemplate_def)

text \<open>
  C2. The parser returns \<open>modules: null\<close> when it has opened no module (as in
  \<open>parseTemplate_no_def\<close>, and then the load leaves the state as it was:
  \<open>handleFile_template_sentinel\<close>), not when it has recovered no mapping. The text
  \<open>def transform(INPUT):\<close> holds no mapping line; the parser returns for it the one
  module "main" without mappings and the count 0, and loading it as a template replaces
  whatever model was there by that module.
\<close>

theorem parseTemplate_no_mappings:
  \<open>parseTemplate uid ''def transform(INPUT):'' =
     \<lparr>parsed_modules = Some [\<lparr>id_m = Str (uid 0), name = Str ''main'', mappings = []\<rparr>],
      parsed_totalMappings = 0\<rparr>
   \<and> modules (handleFile_template uid ''def transform(INPUT):'' s)
       = [\<lparr>id_m = Str (uid 0), name = Str ''main'', mappings = []\<rparr>]
   \<and> originalModules (handleFile_template uid ''def transform(INPUT):'' s)
       = Some [\<lparr>id_m = Str (uid 0), name = Str ''main'', mappings = []\<rparr>]\<close>
proof -
  have \<open>parseTemplate uid ''def transform(INPUT):'' =
     \<lparr>parsed_modules = Some [\<lparr>id_m = Str (uid 0), name = Str ''main'', mappings = []\<rparr>],
      parsed_totalMappings = 0\<rparr>\<close>
    by (simp add: parse_defs rx_defs)
  then show ?thesis
    by (simp add: handleFile_template_def)
qed

lemma generateCode_ex_dotted: "generateCode ex_dotted = Inr ex_dotted_text"
  by (simp add: ex_dotted_def ex_dotted_text_def generate_defs)

lemma parseTemplate_ex_dotted:
  "parseTemplate uid ex_dotted_text =
     \<lparr>parsed_modules = Some (ex_dotted_parsed uid), parsed_totalMappings = 1\<rparr>"
  by (simp add: ex_dotted_text_def ex_dotted_parsed_def parse_defs rx_defs)

lemma calculateChanges_ex_dotted:
  "map (\<lambda>p. (get (fst p) ''source'', get (snd p) ''source''))
       (modified (calculateChanges (Some ex_dotted) (ex_dotted_parsed uid)))
     = [(Str ''a'', Str ''a.b'')]
   \<and> unchanged (calculateChanges (Some ex_dotted) (ex_dotted_parsed uid)) = []"
  by (simp add: ex_dotted_def ex_dotted_parsed_def diff_defs)

text \<open>
  C1. The model with the one direct mapping of the source \<open>a.b\<close> to the target \<open>x\<close> is
  rendered with the line \<open>OUTPUT["x"] = INPUT.a.b\<close>. The parser reads that line with its
  pattern for one-level targets, whose source group stops at the first dot, and returns
  the mapping with the source \<open>a\<close>; the diff engine reports the mapping as modified, and
  reports nothing as unchanged.
\<close>

theorem roundtrip_dotted_source:
  "generateCode ex_dotted = Inr ex_dotted_text
   \<and> parseTemplate uid ex_dotted_text =
       \<lparr>parsed_modules = Some (ex_dotted_parsed uid), parsed_totalMappings = 1\<rparr>
   \<and> map (\<lambda>m. get m ''source'') (concat (map mappings (ex_dotted_parsed uid))) = [Str ''a'']
   \<and> map (\<lambda>p. (get (fst p) ''source'', get (snd p) ''source''))
          (modified (calculateChanges (Some ex_dotted) (ex_dotted_parsed uid)))
       = [(Str ''a'', Str ''a.b'')]
   \<and> unchanged (calculateChanges (Some ex_dotted) (ex_dotted_parsed uid)) = []"
  using generateCode_ex_dotted parseTemplate_ex_dotted [of uid] calculateChanges_ex_dotted [of uid]
  by (simp add: ex_dotted_parsed_def get_def)

text \<open>
  C10. Renaming a module rewrites the calls of it in the other modules and leaves the
  mappings of the renamed module itself as they are. The template with a sub-routine
  \<open>foo\<close> that calls \<open>foo\<close> loads as the module \<open>foo\<close> holding that call, and "main"; after
  renaming \<open>foo\<close> to \<open>bar\<close> the call in "main" names \<open>bar\<close> and the call inside the
  renamed module still names \<open>foo\<close>.
\<close>

theorem updateModuleName_self_call:
  "modules (handleFile_template uid ex_self_call_text s) = ex_self_call uid ''foo''
   \<and> map (\<lambda>m. (name m, map (\<lambda>mp. get mp ''moduleName'') (mappings m)))
          (ex_self_call uid ''foo'')
       = [(Str ''foo'', [Str ''foo'']), (Str ''main'', [Str ''foo''])]
   \<and> updateModuleName 0 ''bar'' (handleFile_template uid ex_self_call_text s)
       = Inr ((handleFile_template uid ex_self_call_text s)
                \<lparr>modules :=
                   [\<lparr>id_m = Str (uid 0), name = Str ''bar'',
                     mappings = [map_of [(''id'', Str (uid 1)), (''moduleName'', Str ''foo''),
                                         (''type'', Str ''module_call''),
                                         (''isNew'', Bool False)]]\<rparr>,
                    \<lparr>id_m = Str (uid 2), name = Str ''main'',
                     mappings = [map_of [(''id'', Str (uid 3)), (''moduleName'', Str ''bar''),
                                         (''type'', Str ''module_call''),
                                         (''isNew'', Bool False)]]\<rparr>]\<rparr>)"
proof -
  have p: "parseTemplate uid ex_self_call_text =
     \<lparr>parsed_modules = Some (ex_self_call uid ''foo''), parsed_totalMappings = 2\<rparr>"
    by (simp add: ex_self_call_text_def ex_self_call_def parse_defs rx_defs numeral_2_eq_2
          numeral_3_eq_3)
  have m: "modules (handleFile_template uid ex_self_call_text s) = ex_self_call uid ''foo''"
    using p by (simp add: handleFile_template_def)
  have v: "map (\<lambda>m. (name m, map (\<lambda>mp. get mp ''moduleName'') (mappings m)))
               (ex_self_call uid ''foo'')
             = [(Str ''foo'', [Str ''foo'']), (Str ''main'', [Str ''foo''])]"
    by (simp add: ex_self_call_def get_def)
  have r: "updateModuleName 0 ''bar'' (handleFile_template uid ex_self_call_text s)
       = Inr ((handleFile_template uid ex_self_call_text s)
                \<lparr>modules :=
                   [\<lparr>id_m = Str (uid 0), name = Str ''bar'',
                     mappings = [map_of [(''id'', Str (uid 1)), (''moduleName'', Str ''foo''),
                                         (''type'', Str ''module_call''),
                                         (''isNew'', Bool False)]]\<rparr>,
                    \<lparr>id_m = Str (uid 2), name = Str ''main'',
                     mappings = [map_of [(''id'', Str (uid 3)), (''moduleName'', Str ''bar''),
                                         (''type'', Str ''module_call''),
                                         (''isNew'', Bool False)]]\<rparr>]\<rparr>)"
    by (simp add: updateModuleName_def m ex_self_call_def rename_calls_def get_def Let_def
          fun_upd_twist)
  from m v r show ?thesis
    by (intro conjI) assumption+
qed

section \<open>Every model the mapper can hold is well formed\<close>

subsection \<open>The parser makes well-formed mappings\<close>

lemma cap_not_bool: "cap c n \<noteq> Bool b"
  by (simp add: cap_def split: option.splits)

lemma well_formed_call:
  "well_formed (map_of [(''id'', i), (''moduleName'', a), (''type'', Str ''module_call''),
                        (''isNew'', b)])"
  by (simp add: well_formed_def get_def)

lemma well_formed_direct:
  "t \<noteq> Bool True \<Longrightarrow>
   well_formed (map_of [(''id'', i), (''target'', t), (''source'', s), (''transform'', tr),
                        (''transformation'', Str ''direct''), (''type'', Str ''field''),
                        (''isNew'', b)])"
  by (simp add: well_formed_def get_def toStr_def object_prototype_def)

lemma well_formed_conditional:
  "t \<noteq> Bool True \<Longrightarrow>
   well_formed (map_of [(''id'', i), (''target'', t), (''condField'', f), (''condOp'', p),
                        (''condValue'', v), (''thenValue'', Str a), (''elseValue'', Str e),
                        (''transformation'', Str ''conditional''), (''type'', Str ''field''),
                        (''isNew'', b)])"
  by (simp add: well_formed_def get_def toStr_def object_prototype_def)

lemma open_module_keeps:
  assumes "well_formed_model (ps_modules st)"
  shows "well_formed_model (ps_modules (open_module uid nm st))
       \<and> (\<forall>i. currentModule (open_module uid nm st) = Some i
                \<longrightarrow> i < length (ps_modules (open_module uid nm st)))"
  using assms by (simp add: open_module_def well_formed_model_def)

lemma push_mapping_keeps:
  assumes "well_formed_model (ps_modules st)"
    and "\<forall>i. currentModule st = Some i \<longrightarrow> i < length (ps_modules st)"
    and "\<forall>i. well_formed (mk i)"
  shows "well_formed_model (ps_modules (push_mapping uid mk st))
       \<and> (\<forall>i. currentModule (push_mapping uid mk st) = Some i
                \<longrightarrow> i < length (ps_modules (push_mapping uid mk st)))"
proof (cases "currentModule st")
  case None
  then show ?thesis using assms by (simp add: push_mapping_def)
next
  case (Some i)
  then have i: "i < length (ps_modules st)" using assms(2) by simp
  then have "ps_modules st ! i \<in> set (ps_modules st)" by simp
  then have old: "\<forall>mp \<in> set (mappings (ps_modules st ! i)). well_formed mp"
    using assms(1) by (simp add: well_formed_model_def list_all_iff)
  let ?new = "(ps_modules st ! i)
     \<lparr>mappings := mappings (ps_modules st ! i) @ [mk (Str (uid (uids st)))]\<rparr>"
  have new: "\<forall>mp \<in> set (mappings ?new). well_formed mp"
    using old assms(3) by auto
  have "set ((ps_modules st)[i := ?new]) \<subseteq> insert ?new (set (ps_modules st))"
    by (rule set_update_subset_insert)
  moreover have "\<forall>md \<in> set (ps_modules st). \<forall>mp \<in> set (mappings md). well_formed mp"
    using assms(1) by (simp add: well_formed_model_def list_all_iff)
  ultimately have "\<forall>md \<in> set ((ps_modules st)[i := ?new]).
                     \<forall>mp \<in> set (mappings md). well_formed mp"
    using new by blast
  then show ?thesis
    using Some i by (simp add: push_mapping_def well_formed_model_def list_all_iff)
qed

lemma parse_line_cases:
  assumes "\<And>nm. P (open_module uid nm st)" and "P (st\<lparr>currentModule := None\<rparr>)" and "P st"
    and "\<And>mk. \<forall>i. well_formed (mk i) \<Longrightarrow> P (push_mapping uid mk st)"
  shows "P (parse_line uid line st)"
proof (cases "match_js (trim line) rx_defMain \<noteq> None")
  case True
  have eq: "parse_line uid line st = open_module uid (Str ''main'') st"
    unfolding parse_line_def Let_def by (simp only: True if_True simp_thms)
  then show ?thesis using assms(1) by simp
next
  case noMain: False
  show ?thesis
  proof (cases "match_js (trim line) rx_moduleDef")
    case (Some c)
    have eq: "parse_line uid line st = open_module uid (cap c 1) st"
      unfolding parse_line_def Let_def by (simp only: noMain Some if_False option.case simp_thms)
    then show ?thesis using assms(1) by simp
  next
    case noDef: None
    show ?thesis
    proof (cases "take 4 (trim line) = ''def '' \<and> match_js (trim line) rx_knownDef = None")
      case True
      have eq: "parse_line uid line st = st\<lparr>currentModule := None\<rparr>"
        unfolding parse_line_def Let_def
        by (simp only: noMain noDef True if_False if_True option.case simp_thms)
      then show ?thesis using assms(2) by simp
    next
      case other: False
      show ?thesis
      proof (cases "currentModule st = None")
        case True
        have eq: "parse_line uid line st = st"
          unfolding parse_line_def Let_def
          by (simp only: noMain noDef other True if_False if_True option.case simp_thms)
        then show ?thesis using assms(3) by simp
      next
        case inside: False
        show ?thesis
        proof (cases "match_js (trim line) rx_moduleCall")
          case (Some c)
          have eq: "parse_line uid line st =
                  push_mapping uid
                    (\<lambda>i. map_of [(''id'', i), (''moduleName'', cap c 1),
                                  (''type'', Str ''module_call''), (''isNew'', Bool False)]) st"
            unfolding parse_line_def Let_def
            by (simp only: noMain noDef other inside Some if_False option.case simp_thms)
          show ?thesis
            unfolding eq by (rule assms(4)) (rule allI, rule well_formed_call)
        next
          case noCall: None
          show ?thesis
          proof (cases "match_js (trim line) rx_simple")
            case (Some c)
            have eq: "parse_line uid line st =
                    push_mapping uid
                      (\<lambda>i. map_of [(''id'', i), (''target'', cap c 1), (''source'', cap c 2),
                                    (''transform'', or_null (cap c 3)),
                                    (''transformation'', Str ''direct''),
                                    (''type'', Str ''field''), (''isNew'', Bool False)]) st"
              unfolding parse_line_def Let_def
              by (simp only: noMain noDef other inside noCall Some if_False option.case simp_thms)
            show ?thesis
              unfolding eq by (rule assms(4)) (rule allI, rule well_formed_direct, rule cap_not_bool)
          next
            case noSimple: None
            show ?thesis
            proof (cases "match_js (trim line) rx_nested")
              case (Some c)
              have eq: "parse_line uid line st =
                      push_mapping uid
                        (\<lambda>i. map_of [(''id'', i),
                                      (''target'',
                                       Str (join ''.'' (map (\<lambda>m. cap_str m 1)
                                                          (rx_all rx_key 0 0 (trim line))))),
                                      (''source'',
                                       Str (join ''.'' (split_js (CHR ''.'') (cap_str c 2)))),
                                      (''transform'', or_null (cap c 3)),
                                      (''transformation'', Str ''direct''),
                                      (''type'', Str ''field''), (''isNew'', Bool False)]) st"
                unfolding parse_line_def Let_def
                by (simp only: noMain noDef other inside noCall noSimple Some if_False
                      option.case simp_thms)
              show ?thesis
                unfolding eq by (rule assms(4)) (rule allI, rule well_formed_direct, simp)
            next
              case noNested: None
              show ?thesis
              proof (cases "match_js (trim line) rx_cond")
                case (Some c)
                have eq: "parse_line uid line st =
                        push_mapping uid
                          (\<lambda>i. map_of [(''id'', i), (''target'', cap c 1),
                                        (''condField'', cap c 3), (''condOp'', cap c 4),
                                        (''condValue'', cap c 5),
                                        (''thenValue'', Str (cleanVal (cap_str c 2))),
                                        (''elseValue'', Str (cleanVal (cap_str c 6))),
                                        (''transformation'', Str ''conditional''),
                                        (''type'', Str ''field''), (''isNew'', Bool False)]) st"
                  unfolding parse_line_def Let_def
                  by (simp only: noMain noDef other inside noCall noSimple noNested Some
                        if_False option.case simp_thms)
                show ?thesis
                  unfolding eq
                  by (rule assms(4)) (rule allI, rule well_formed_conditional, rule cap_not_bool)
              next
                case None
                have eq: "parse_line uid line st = st"
                  unfolding parse_line_def Let_def
                  by (simp only: noMain noDef other inside noCall noSimple noNested None
                        if_False option.case simp_thms)
                then show ?thesis using assms(3) by simp
              qed
            qed
          qed
        qed
      qed
    qed
  qed
qed

lemma parse_line_keeps:
  assumes "well_formed_model (ps_modules st)"
    and "\<forall>i. currentModule st = Some i \<longrightarrow> i < length (ps_modules st)"
  shows "well_formed_model (ps_modules (parse_line uid line st))
       \<and> (\<forall>i. currentModule (parse_line uid line st) = Some i
                \<longrightarrow> i < length (ps_modules (parse_line uid line st)))"
proof (rule parse_line_cases)
  fix nm
  show "well_formed_model (ps_modules (open_module uid nm st))
       \<and> (\<forall>i. currentModule (open_module uid nm st) = Some i
                \<longrightarrow> i < length (ps_modules (open_module uid nm st)))"
    by (rule open_module_keeps [OF assms(1)])
next
  show "well_formed_model (ps_modules (st\<lparr>currentModule := None\<rparr>))
       \<and> (\<forall>i. currentModule (st\<lparr>currentModule := None\<rparr>) = Some i
                \<longrightarrow> i < length (ps_modules (st\<lparr>currentModule := None\<rparr>)))"
    using assms by simp
next
  show "well_formed_model (ps_modules st)
       \<and> (\<forall>i. currentModule st = Some i \<longrightarrow> i < length (ps_modules st))"
    using assms by simp
next
  fix mk :: "jsval \<Rightarrow> mapping"
  assume "\<forall>i. well_formed (mk i)"
  then show "well_formed_model (ps_modules (push_mapping uid mk st))
       \<and> (\<forall>i. currentModule (push_mapping uid mk st) = Some i
                \<longrightarrow> i < length (ps_modules (push_mapping uid mk st)))"
    by (rule push_mapping_keeps [OF assms])
qed

lemma fold_parse_line_keeps:
  assumes "well_formed_model (ps_modules st)"
    and "\<forall>i. currentModule st = Some i \<longrightarrow> i < length (ps_modules st)"
  shows "well_formed_model (ps_modules (fold (parse_line uid) ls st))"
  using assms
proof (induction ls arbitrary: st)
  case Nil
  then show ?case by simp
next
  case (Cons l ls)
  show ?case
    using Cons.IH [of "parse_line uid l st"] parse_line_keeps [OF Cons.prems, of uid l]
    by simp
qed

lemma parseTemplate_well_formed:
  assumes "parsed_modules (parseTemplate uid content) = Some ms"
  shows "well_formed_model ms"
proof -
  have "well_formed_model
          (ps_modules (fold (parse_line uid) (split_js (CHR 0x0A) content)
             \<lparr>ps_modules = [], currentModule = None, totalMappings = 0, uids = 0\<rparr>))"
    by (rule fold_parse_line_keeps) (simp_all add: well_formed_model_def)
  then show ?thesis
    using assms by (simp add: parseTemplate_def Let_def split: if_splits)
qed

subsection \<open>The operations keep a model well formed\<close>

lemma well_formed_empty: "well_formed Map.empty"
  by (simp add: well_formed_def get_def toStr_def object_prototype_def)

lemma well_formed_rename_calls: "well_formed m \<Longrightarrow> well_formed (rename_calls old nm m)"
  by (auto simp add: rename_calls_def well_formed_def get_def split: if_splits)

lemma well_formed_update:
  assumes "well_formed m" and "ui_update u"
  shows "well_formed ((m ++ u)(''isNew'' \<mapsto> Bool False))"
proof -
  have ty: "get ((m ++ u)(''isNew'' \<mapsto> Bool False)) ''type'' = get m ''type''"
    using assms(2) by (simp add: get_def ui_update_def map_add_def)
  show ?thesis
  proof (cases "get m ''type'' = Str ''module_call''")
    case True
    then show ?thesis using ty by (simp add: well_formed_def)
  next
    case False
    then have "toStr (get m ''transformation'') \<notin> set object_prototype"
      "get m ''target'' \<noteq> Bool True" "get m ''thenValue'' \<noteq> Bool True"
      "get m ''elseValue'' \<noteq> Bool True"
      using assms(1) by (simp_all add: well_formed_def)
    then show ?thesis
      using assms(2) False ty
      by (auto simp add: well_formed_def ui_update_def get_def map_add_def
            split: option.splits)
  qed
qed

lemma set_array_set: "set (array_set hole xs i v) \<subseteq> insert hole (insert v (set xs))"
proof -
  have "set (xs[nat i := v]) \<subseteq> insert v (set xs)"
    by (rule set_update_subset_insert)
  then show ?thesis by (auto simp add: array_set_def)
qed

lemma at_member: "at xs i = Some x \<Longrightarrow> x \<in> set xs"
  by (auto simp add: at_def split: if_splits)

lemma current_mappings_well_formed:
  assumes "well_formed_model (modules s)"
  shows "list_all well_formed (current_mappings s)"
proof (cases "at (modules s) (activeModule s)")
  case None
  then show ?thesis by (simp add: current_mappings_def)
next
  case (Some m)
  then have "m \<in> set (modules s)" by (rule at_member)
  then show ?thesis
    using assms Some by (simp add: current_mappings_def well_formed_model_def list_all_iff)
qed

lemma updateModuleMappings_well_formed:
  assumes "well_formed_model (modules s)" and "list_all well_formed new"
  shows "well_formed_model (modules (updateModuleMappings i new s))"
proof -
  let ?v = "(case at (modules s) i of None \<Rightarrow> no_module | Some m \<Rightarrow> m)\<lparr>mappings := new\<rparr>"
  have "set (array_set no_module (modules s) i ?v)
          \<subseteq> insert no_module (insert ?v (set (modules s)))"
    by (rule set_array_set)
  moreover have "list_all well_formed (mappings no_module)"
    by (simp add: no_module_def)
  moreover have "list_all well_formed (mappings ?v)"
    using assms(2) by simp
  moreover have "\<forall>md \<in> set (modules s). list_all well_formed (mappings md)"
    using assms(1) by (simp add: well_formed_model_def list_all_iff)
  ultimately have "\<forall>md \<in> set (array_set no_module (modules s) i ?v).
                     list_all well_formed (mappings md)"
    by blast
  then show ?thesis
    by (simp add: updateModuleMappings_def well_formed_model_def list_all_iff)
qed

lemma remove_at_subset: "set (remove_at xs idx) \<subseteq> set xs"
  by (auto simp add: remove_at_take_drop dest: in_set_takeD in_set_dropD)

lemma list_all_subset: "set ys \<subseteq> set xs \<Longrightarrow> list_all P xs \<Longrightarrow> list_all P ys"
  by (auto simp add: list_all_iff)

lemma updateModuleName_well_formed:
  assumes "well_formed_model (modules s)" and "updateModuleName idx nm s = Inr s'"
  shows "well_formed_model (modules s')"
proof (cases "length (modules s) \<le> idx \<or> name (modules s ! idx) = Str ''main''
              \<or> name (modules s ! idx) = Str nm")
  case True
  then have "s' = s"
    using assms(2) by (auto simp add: updateModuleName_def Let_def split: if_splits)
  then show ?thesis using assms(1) by simp
next
  case False
  have each: "\<forall>md \<in> set (modules s). list_all well_formed (mappings md)"
    using assms(1) by (simp add: well_formed_model_def list_all_iff)
  have "modules s' =
          map (\<lambda>p. if fst p = idx then (snd p)\<lparr>name := Str nm\<rparr>
                    else (snd p)\<lparr>mappings :=
                           map (rename_calls (name (modules s ! idx)) nm) (mappings (snd p))\<rparr>)
              (enumerate 0 (modules s))"
    using assms(2) False by (auto simp add: updateModuleName_def Let_def split: if_splits)
  moreover have "\<forall>p \<in> set (enumerate 0 (modules s)). snd p \<in> set (modules s)"
    by (auto simp add: in_set_enumerate_eq)
  ultimately show ?thesis
    using each
    by (fastforce simp add: well_formed_model_def list_all_iff
          intro!: well_formed_rename_calls)
qed

lemma step_well_formed:
  assumes "well_formed_model (modules s)" and "ui_event ev"
  shows "well_formed_model (modules (step ev s))"
proof (cases ev)
  case (AddModule uidv)
  then show ?thesis using assms(1) by (simp add: addModule_def well_formed_model_def)
next
  case (UpdateModuleName idx nm)
  then show ?thesis
    using assms(1) updateModuleName_well_formed [OF assms(1), of idx nm]
    by (auto split: sum.splits)
next
  case (DeleteModule idx)
  have "well_formed_model (remove_at (modules s) idx)"
    using assms(1) remove_at_subset [of "modules s" idx]
    unfolding well_formed_model_def by (rule_tac list_all_subset)
  then show ?thesis
    using DeleteModule assms(1) by (simp add: deleteModule_def Let_def)
next
  case (SetActiveModule idx)
  then show ?thesis using assms(1) by simp
next
  case (AddMapping uidv)
  have "well_formed (map_of [(''id'', Str uidv), (''target'', Str []), (''source'', Str []),
                   (''transformation'', Str ''direct''), (''type'', Str ''field''),
                   (''isNew'', Bool True)])"
    by (simp add: well_formed_def get_def toStr_def object_prototype_def)
  then show ?thesis
    using AddMapping current_mappings_well_formed [OF assms(1)]
    by (simp add: addMapping_def updateModuleMappings_well_formed [OF assms(1)] del: map_of.simps)
next
  case (AddModuleCall uidv)
  have "well_formed (map_of [(''id'', Str uidv), (''moduleName'', Str []),
                   (''type'', Str ''module_call''), (''isNew'', Bool True)])"
    by (rule well_formed_call)
  then show ?thesis
    using AddModuleCall current_mappings_well_formed [OF assms(1)]
    by (simp add: addModuleCall_def updateModuleMappings_well_formed [OF assms(1)]
          del: map_of.simps)
next
  case (UpdateMapping idx u)
  then have u: "ui_update u" using assms(2) by simp
  let ?old = "case at (current_mappings s) (int idx) of None \<Rightarrow> Map.empty | Some m \<Rightarrow> m"
  have cur: "list_all well_formed (current_mappings s)"
    by (rule current_mappings_well_formed [OF assms(1)])
  have "well_formed ?old"
    using cur at_member [of "current_mappings s" "int idx"]
    by (auto simp add: well_formed_empty list_all_iff split: option.splits)
  then have new: "well_formed ((?old ++ u)(''isNew'' \<mapsto> Bool False))"
    using u by (rule well_formed_update)
  have "set (array_set Map.empty (current_mappings s) (int idx)
               ((?old ++ u)(''isNew'' \<mapsto> Bool False)))
          \<subseteq> insert Map.empty (insert ((?old ++ u)(''isNew'' \<mapsto> Bool False))
               (set (current_mappings s)))"
    by (rule set_array_set)
  then have "list_all well_formed
               (array_set Map.empty (current_mappings s) (int idx)
                  ((?old ++ u)(''isNew'' \<mapsto> Bool False)))"
    using new cur well_formed_empty unfolding list_all_iff by blast
  then show ?thesis
    using UpdateMapping
    by (simp add: updateMapping_def updateModuleMappings_well_formed [OF assms(1)])
next
  case (DeleteMapping idx)
  have "list_all well_formed (remove_at (current_mappings s) idx)"
    using remove_at_subset current_mappings_well_formed [OF assms(1)]
    by (rule list_all_subset)
  then show ?thesis
    using DeleteMapping
    by (simp add: deleteMapping_def updateModuleMappings_well_formed [OF assms(1)])
next
  case (LoadTemplate uid content)
  then show ?thesis
    using assms(1) parseTemplate_well_formed [of uid content]
    by (auto simp add: handleFile_template_modules split: option.splits)
qed

lemma reachable_well_formed: "reachable s \<Longrightarrow> well_formed_model (modules s)"
proof (induction rule: reachable.induct)
  case (start uidv)
  show ?case by (simp add: initial_def well_formed_model_def)
next
  case (action s ev)
  then show ?case by (simp add: step_well_formed)
qed

lemma reachable_renders: "reachable s \<Longrightarrow> \<exists>text. generateCode (modules s) = Inr text"
  using reachable_well_formed generateCode_returns by blast

end
